theory Spec2Isabelle
  imports Main
begin

section \<open>Domain entities (package domain)\<close>

text \<open>
  Go's \<open>int64\<close> identifiers, limits and offsets are modelled as \<open>int\<close>: no operation below
  does arithmetic on them that could wrap, apart from the storage layer handing out the next
  row id.  Strings are byte strings, as in Go.

  Timestamps: the repository writes every timestamp with
  \<open>t.Format(time.RFC3339)\<close> of a UTC time and compares the stored text with
  \<open>now.Format(time.RFC3339)\<close> inside SQL.  Such texts have the fixed shape
  \<open>YYYY-MM-DDThh:mm:ssZ\<close>, so their text order is the order of the instants cut to whole
  seconds.  A timestamp is therefore an \<open>int\<close>: a number of whole seconds.
\<close>

type_synonym time = int

record Message =
  ID :: int
  UserID :: int
  Username :: string
  Content :: string
  CreatedAt :: time
  IsBanned :: bool

record Comment =
  CommentID :: int
  MessageID :: int
  CommentUserID :: int
  CommentUsername :: string
  CommentContent :: string
  CommentCreatedAt :: time
  ExpiresAt :: time

record User =
  UserIdent :: int
  UserName :: string
  Role :: string
  UserIsBanned :: bool

text \<open>A Go \<open>error\<close> made by \<open>errors.New\<close>: a value carrying its message.\<close>

datatype error = errors_New string


section \<open>The SQL store behind MessageRepository\<close>

text \<open>
  The two tables of \<open>InitSchema\<close>, each a list of rows in insertion (rowid) order, and the
  two \<open>AUTOINCREMENT\<close> counters.  Failures of the database driver itself (a closed
  connection, a full disk) are outside the model: every \<open>err\<close> that can only come from the
  driver is \<open>nil\<close> here.
\<close>

record DB =
  messages :: "Message list"
  comments :: "Comment list"
  messages_seq :: int
  comments_seq :: int

text \<open>\<open>LIMIT ? OFFSET ?\<close> as SQLite reads them: a negative limit is no limit, a negative
  offset is no offset.\<close>

definition sql_limit_offset :: "int \<Rightarrow> int \<Rightarrow> 'a list \<Rightarrow> 'a list" where
  "sql_limit_offset limit offset rows =
     (let rest = drop (nat offset) rows
      in if limit < 0 then rest else take (nat limit) rest)"

text \<open>\<open>ORDER BY created_at DESC\<close> and \<open>ORDER BY created_at ASC\<close>.  SQL leaves the
  order of rows with equal timestamps open; here they stay in rowid order, and no result
  below depends on it.\<close>

definition order_by_created_at_desc :: "Message list \<Rightarrow> Message list" where
  "order_by_created_at_desc rows = sort_key (\<lambda>m. - CreatedAt m) rows"

definition order_by_created_at_asc :: "Comment list \<Rightarrow> Comment list" where
  "order_by_created_at_asc rows = sort_key CommentCreatedAt rows"


section \<open>MessageRepository\<close>

definition MessageRepository_GetByID :: "int \<Rightarrow> DB \<Rightarrow> error + Message" where
  "MessageRepository_GetByID ident d =
     (case find (\<lambda>m. ID m = ident) (messages d) of
        None \<Rightarrow> Inl (errors_New ''message not found'')
      | Some message \<Rightarrow> Inr message)"

text \<open>\<open>List\<close>: \<open>SELECT COUNT(*) FROM messages\<close>, then
  \<open>SELECT ... FROM messages ORDER BY created_at DESC LIMIT ? OFFSET ?\<close>.  Neither statement
  has a \<open>WHERE\<close> clause.\<close>

definition MessageRepository_List :: "int \<Rightarrow> int \<Rightarrow> DB \<Rightarrow> Message list \<times> int" where
  "MessageRepository_List limit offset d =
     (let total = int (length (messages d));
          rows = sql_limit_offset limit offset (order_by_created_at_desc (messages d))
      in (rows, total))"

definition MessageRepository_GetAllMessages :: "DB \<Rightarrow> Message list" where
  "MessageRepository_GetAllMessages d = order_by_created_at_desc (messages d)"

text \<open>\<open>Create\<close> stamps the caller's struct with the current time (the argument is a
  pointer), inserts the row and returns the new row id; the stamped struct is returned too.\<close>

definition MessageRepository_Create :: "time \<Rightarrow> Message \<Rightarrow> DB \<Rightarrow> int \<times> Message \<times> DB" where
  "MessageRepository_Create now message d =
     (let message' = message\<lparr>CreatedAt := now\<rparr>;
          newid = messages_seq d + 1
      in (newid, message',
          d\<lparr>messages := messages d @ [message'\<lparr>ID := newid\<rparr>], messages_seq := newid\<rparr>))"

definition MessageRepository_Ban :: "int \<Rightarrow> DB \<Rightarrow> DB" where
  "MessageRepository_Ban ident d =
     d\<lparr>messages := map (\<lambda>m. if ID m = ident then m\<lparr>IsBanned := True\<rparr> else m) (messages d)\<rparr>"

definition MessageRepository_Unban :: "int \<Rightarrow> DB \<Rightarrow> DB" where
  "MessageRepository_Unban ident d =
     d\<lparr>messages := map (\<lambda>m. if ID m = ident then m\<lparr>IsBanned := False\<rparr> else m) (messages d)\<rparr>"

text \<open>\<open>CreateComment\<close>: the parent must exist; creation time and expiry (five minutes
  later) are set here, whatever the caller put in the struct.\<close>

definition MessageRepository_CreateComment ::
  "time \<Rightarrow> Comment \<Rightarrow> DB \<Rightarrow> (error + int \<times> Comment) \<times> DB" where
  "MessageRepository_CreateComment now comment d =
     (case MessageRepository_GetByID (MessageID comment) d of
        Inl err \<Rightarrow> (Inl err, d)
      | Inr _ \<Rightarrow>
          (let comment' = comment\<lparr>CommentCreatedAt := now, ExpiresAt := now + 5 * 60\<rparr>;
               newid = comments_seq d + 1
           in (Inr (newid, comment'),
               d\<lparr>comments := comments d @ [comment'\<lparr>CommentID := newid\<rparr>],
                 comments_seq := newid\<rparr>)))"

text \<open>\<open>GetComments\<close>: parent check first, then
  \<open>WHERE message_id = ? AND expires_at > ? ORDER BY created_at ASC\<close>.\<close>

definition MessageRepository_GetComments :: "time \<Rightarrow> int \<Rightarrow> DB \<Rightarrow> error + Comment list" where
  "MessageRepository_GetComments now messageID d =
     (case MessageRepository_GetByID messageID d of
        Inl err \<Rightarrow> Inl err
      | Inr _ \<Rightarrow>
          Inr (order_by_created_at_asc
                 (filter (\<lambda>c. MessageID c = messageID \<and> ExpiresAt c > now) (comments d))))"

text \<open>\<open>Delete\<close>: first the comments of the message, then the message.\<close>

definition MessageRepository_Delete :: "int \<Rightarrow> DB \<Rightarrow> DB" where
  "MessageRepository_Delete ident d =
     (let d1 = d\<lparr>comments := filter (\<lambda>c. MessageID c \<noteq> ident) (comments d)\<rparr>
      in d1\<lparr>messages := filter (\<lambda>m. ID m \<noteq> ident) (messages d1)\<rparr>)"

text \<open>\<open>GetCommentByID\<close>: \<open>WHERE id = ?\<close> only.\<close>

definition MessageRepository_GetCommentByID :: "int \<Rightarrow> DB \<Rightarrow> error + Comment" where
  "MessageRepository_GetCommentByID ident d =
     (case find (\<lambda>c. CommentID c = ident) (comments d) of
        None \<Rightarrow> Inl (errors_New ''comment not found'')
      | Some comment \<Rightarrow> Inr comment)"

definition MessageRepository_DeleteComment :: "int \<Rightarrow> DB \<Rightarrow> DB" where
  "MessageRepository_DeleteComment ident d =
     d\<lparr>comments := filter (\<lambda>c. CommentID c \<noteq> ident) (comments d)\<rparr>"

text \<open>\<open>DeleteExpiredComments\<close>: \<open>DELETE FROM comments WHERE expires_at <= ?\<close>.  The
  statement's result (the number of rows affected) is discarded; the function returns only an
  \<open>error\<close>, here always \<open>nil\<close> (\<open>None\<close>).\<close>

definition MessageRepository_DeleteExpiredComments :: "time \<Rightarrow> DB \<Rightarrow> error option \<times> DB" where
  "MessageRepository_DeleteExpiredComments now d =
     (None, d\<lparr>comments := filter (\<lambda>c. \<not> ExpiresAt c \<le> now) (comments d)\<rparr>)"


section \<open>The use cases and their collaborators\<close>

text \<open>
  A use case talks to three collaborators: the repository, the auth client and the hub.
  The world it runs in is the store together with the log of every collaborator call made so
  far, in order; a call that is not in the log was not made.
  \<open>time.Now()\<close> is the parameter \<open>now\<close>; the auth client's \<open>GetUser\<close> is the parameter
  \<open>GetUser\<close>, a function from a user id to the user or the error of the lookup (a time-out
  included).
\<close>

datatype call =
    AuthClient_GetUser int
  | Repo_GetByID int
  | Repo_List int int
  | Repo_GetAllMessages
  | Repo_Create Message
  | Repo_Ban int
  | Repo_Unban int
  | Repo_CreateComment Comment
  | Repo_GetComments int
  | Repo_Delete int
  | Repo_DeleteExpiredComments
  | Hub_BroadcastMessage Message

record World =
  db :: DB
  calls :: "call list"

definition record_call :: "call \<Rightarrow> World \<Rightarrow> World" where
  "record_call c w = w\<lparr>calls := calls w @ [c]\<rparr>"

text \<open>The block \<open>if userID != 0 { ... }\<close> that \<open>MessageUseCase.CreateMessage\<close> and
  \<open>MessageUseCase.CreateComment\<close> both contain: skipped for user id 0, otherwise one
  lookup, whose error is returned as it is, and \<open>user is banned\<close> for a banned user.
  \<open>Some\<close> is the error the caller returns.\<close>

definition validate_user :: "(int \<Rightarrow> error + User) \<Rightarrow> int \<Rightarrow> World \<Rightarrow> error option \<times> World" where
  "validate_user GetUser userID w =
     (if userID \<noteq> 0 then
        (case GetUser userID of
           Inl err \<Rightarrow> (Some err, record_call (AuthClient_GetUser userID) w)
         | Inr user \<Rightarrow>
             (if UserIsBanned user
              then (Some (errors_New ''user is banned''), record_call (AuthClient_GetUser userID) w)
              else (None, record_call (AuthClient_GetUser userID) w)))
      else (None, w))"

subsection \<open>MessageUseCase (the use case that validates and broadcasts)\<close>

definition MessageUseCase_GetMessages :: "int \<Rightarrow> int \<Rightarrow> World \<Rightarrow> (Message list \<times> int) \<times> World" where
  "MessageUseCase_GetMessages limit offset w =
     (MessageRepository_List limit offset (db w), record_call (Repo_List limit offset) w)"

definition MessageUseCase_GetAllMessages :: "World \<Rightarrow> Message list \<times> World" where
  "MessageUseCase_GetAllMessages w =
     (MessageRepository_GetAllMessages (db w), record_call Repo_GetAllMessages w)"

definition MessageUseCase_CreateMessage ::
  "(int \<Rightarrow> error + User) \<Rightarrow> time \<Rightarrow> int \<Rightarrow> string \<Rightarrow> string \<Rightarrow> World \<Rightarrow> (error + Message) \<times> World" where
  "MessageUseCase_CreateMessage GetUser now userID username content w =
     (if content = [] then (Inl (errors_New ''content is required''), w)
      else
        (case validate_user GetUser userID w of
           (Some err, w1) \<Rightarrow> (Inl err, w1)
         | (None, w1) \<Rightarrow>
             (let message = \<lparr>ID = 0, UserID = userID, Username = username, Content = content,
                             CreatedAt = now, IsBanned = False\<rparr>;
                  (messageID, stamped, d) = MessageRepository_Create now message (db w1);
                  w2 = record_call (Repo_Create message) (w1\<lparr>db := d\<rparr>);
                  message' = stamped\<lparr>ID := messageID\<rparr>
              in (Inr message', record_call (Hub_BroadcastMessage message') w2))))"

text \<open>\<open>BanMessage\<close> and \<open>UnbanMessage\<close>: look the message up, return the lookup's error if
  there is one, update the row, set the flag in the copy and broadcast the copy.  (The
  source's \<open>message == nil\<close> test cannot fire: \<open>GetByID\<close> returns a message whenever its
  error is \<open>nil\<close>.)\<close>

definition MessageUseCase_BanMessage :: "int \<Rightarrow> World \<Rightarrow> error option \<times> World" where
  "MessageUseCase_BanMessage ident w =
     (let w1 = record_call (Repo_GetByID ident) w
      in case MessageRepository_GetByID ident (db w1) of
           Inl err \<Rightarrow> (Some err, w1)
         | Inr message \<Rightarrow>
             (let w2 = record_call (Repo_Ban ident) (w1\<lparr>db := MessageRepository_Ban ident (db w1)\<rparr>);
                  message' = message\<lparr>IsBanned := True\<rparr>
              in (None, record_call (Hub_BroadcastMessage message') w2)))"

definition MessageUseCase_UnbanMessage :: "int \<Rightarrow> World \<Rightarrow> error option \<times> World" where
  "MessageUseCase_UnbanMessage ident w =
     (let w1 = record_call (Repo_GetByID ident) w
      in case MessageRepository_GetByID ident (db w1) of
           Inl err \<Rightarrow> (Some err, w1)
         | Inr message \<Rightarrow>
             (let w2 = record_call (Repo_Unban ident) (w1\<lparr>db := MessageRepository_Unban ident (db w1)\<rparr>);
                  message' = message\<lparr>IsBanned := False\<rparr>
              in (None, record_call (Hub_BroadcastMessage message') w2)))"

definition MessageUseCase_CreateComment ::
  "(int \<Rightarrow> error + User) \<Rightarrow> time \<Rightarrow> int \<Rightarrow> int \<Rightarrow> string \<Rightarrow> string \<Rightarrow> World \<Rightarrow> (error + Comment) \<times> World" where
  "MessageUseCase_CreateComment GetUser now messageID userID username content w =
     (if content = [] then (Inl (errors_New ''content is required''), w)
      else
        (case validate_user GetUser userID w of
           (Some err, w1) \<Rightarrow> (Inl err, w1)
         | (None, w1) \<Rightarrow>
             (let comment = \<lparr>CommentID = 0, MessageID = messageID, CommentUserID = userID,
                             CommentUsername = username, CommentContent = content,
                             CommentCreatedAt = now, ExpiresAt = 0\<rparr>;
                  (res, d) = MessageRepository_CreateComment now comment (db w1);
                  w2 = record_call (Repo_CreateComment comment) (w1\<lparr>db := d\<rparr>)
              in case res of
                   Inl err \<Rightarrow> (Inl err, w2)
                 | Inr (commentID, stamped) \<Rightarrow> (Inr (stamped\<lparr>CommentID := commentID\<rparr>), w2))))"

definition MessageUseCase_GetComments :: "time \<Rightarrow> int \<Rightarrow> World \<Rightarrow> (error + Comment list) \<times> World" where
  "MessageUseCase_GetComments now messageID w =
     (MessageRepository_GetComments now messageID (db w), record_call (Repo_GetComments messageID) w)"

definition MessageUseCase_DeleteMessage :: "int \<Rightarrow> World \<Rightarrow> error option \<times> World" where
  "MessageUseCase_DeleteMessage ident w =
     (let w1 = record_call (Repo_GetByID ident) w
      in case MessageRepository_GetByID ident (db w1) of
           Inl err \<Rightarrow> (Some err, w1)
         | Inr message \<Rightarrow>
             (None, record_call (Repo_Delete ident) (w1\<lparr>db := MessageRepository_Delete ident (db w1)\<rparr>)))"

definition MessageUseCase_CleanupExpiredComments :: "time \<Rightarrow> World \<Rightarrow> error option \<times> World" where
  "MessageUseCase_CleanupExpiredComments now w =
     (let (err, d) = MessageRepository_DeleteExpiredComments now (db w);
          w1 = record_call Repo_DeleteExpiredComments (w\<lparr>db := d\<rparr>)
      in case err of Some e \<Rightarrow> (Some e, w1) | None \<Rightarrow> (None, w1))"

subsection \<open>UseCase (the use case of usecase.go: each method hands over to the repository)\<close>

definition UseCase_GetMessages :: "int \<Rightarrow> int \<Rightarrow> World \<Rightarrow> (Message list \<times> int) \<times> World" where
  "UseCase_GetMessages limit offset w =
     (MessageRepository_List limit offset (db w), record_call (Repo_List limit offset) w)"

definition UseCase_GetAllMessages :: "World \<Rightarrow> Message list \<times> World" where
  "UseCase_GetAllMessages w =
     (MessageRepository_GetAllMessages (db w), record_call Repo_GetAllMessages w)"

definition UseCase_CreateMessage ::
  "time \<Rightarrow> int \<Rightarrow> string \<Rightarrow> string \<Rightarrow> World \<Rightarrow> (error + Message) \<times> World" where
  "UseCase_CreateMessage now userID username content w =
     (let message = \<lparr>ID = 0, UserID = userID, Username = username, Content = content,
                     CreatedAt = 0, IsBanned = False\<rparr>;
          (newid, stamped, d) = MessageRepository_Create now message (db w);
          w1 = record_call (Repo_Create message) (w\<lparr>db := d\<rparr>)
      in (Inr (stamped\<lparr>ID := newid\<rparr>), w1))"

definition UseCase_BanMessage :: "int \<Rightarrow> World \<Rightarrow> error option \<times> World" where
  "UseCase_BanMessage ident w =
     (None, record_call (Repo_Ban ident) (w\<lparr>db := MessageRepository_Ban ident (db w)\<rparr>))"

definition UseCase_UnbanMessage :: "int \<Rightarrow> World \<Rightarrow> error option \<times> World" where
  "UseCase_UnbanMessage ident w =
     (None, record_call (Repo_Unban ident) (w\<lparr>db := MessageRepository_Unban ident (db w)\<rparr>))"

definition UseCase_CreateComment ::
  "time \<Rightarrow> int \<Rightarrow> int \<Rightarrow> string \<Rightarrow> string \<Rightarrow> World \<Rightarrow> (error + Comment) \<times> World" where
  "UseCase_CreateComment now messageID userID username content w =
     (let comment = \<lparr>CommentID = 0, MessageID = messageID, CommentUserID = userID,
                     CommentUsername = username, CommentContent = content,
                     CommentCreatedAt = now, ExpiresAt = 0\<rparr>;
          (res, d) = MessageRepository_CreateComment now comment (db w);
          w1 = record_call (Repo_CreateComment comment) (w\<lparr>db := d\<rparr>)
      in case res of
           Inl err \<Rightarrow> (Inl err, w1)
         | Inr (newid, stamped) \<Rightarrow> (Inr (stamped\<lparr>CommentID := newid\<rparr>), w1))"

definition UseCase_GetComments :: "time \<Rightarrow> int \<Rightarrow> World \<Rightarrow> (error + Comment list) \<times> World" where
  "UseCase_GetComments now messageID w =
     (MessageRepository_GetComments now messageID (db w), record_call (Repo_GetComments messageID) w)"

definition UseCase_DeleteMessage :: "int \<Rightarrow> World \<Rightarrow> error option \<times> World" where
  "UseCase_DeleteMessage ident w =
     (None, record_call (Repo_Delete ident) (w\<lparr>db := MessageRepository_Delete ident (db w)\<rparr>))"


section \<open>The websocket hub (package ws)\<close>

text \<open>
  A \<open>*Client\<close> is an address, a \<open>nat\<close>.  Its \<open>send\<close> channel is a Go channel: the
  messages waiting in its buffer, the capacity given to \<open>make\<close> (0 for an unbuffered
  channel), whether the channel has been closed, the number of goroutines blocked in a
  receive on it, and the messages handed to its receivers so far.  (\<open>ServeWs\<close>, which makes
  the clients, is outside this development, so the capacity is whatever the channel was
  made with.)  The hub state is the \<open>clients\<close> map together with the heap of the clients'
  channels.  A send on a closed channel and a second \<open>close\<close> panic in Go; the panic is a
  result.
\<close>

datatype panic = send_on_closed_channel | close_of_closed_channel

record chan =
  chan_buf :: "string list"
  chan_cap :: nat
  chan_closed :: bool
  chan_recvq :: nat
  chan_received :: "string list"

record Hub =
  clients :: "nat \<rightharpoonup> bool"
  send :: "nat \<Rightarrow> chan"

definition NewHub :: "(nat \<Rightarrow> chan) \<Rightarrow> Hub" where
  "NewHub heap = \<lparr>clients = Map.empty, send = heap\<rparr>"

text \<open>\<open>close(ch)\<close>: a second close panics; the first one marks the channel and wakes every
  blocked receiver (each gets the zero value, no message).\<close>

definition close_chan :: "chan \<Rightarrow> panic + chan" where
  "close_chan ch =
     (if chan_closed ch then Inl close_of_closed_channel
      else Inr (ch\<lparr>chan_closed := True, chan_recvq := 0\<rparr>))"

text \<open>\<open>select { case ch <- message: default: }\<close>, in the order of Go's channel send: a
  closed channel panics; a blocked receiver is handed the message directly, whatever the
  capacity; otherwise the message goes into the buffer if there is room; otherwise the send
  would block and the \<open>default\<close> branch runs (\<open>None\<close>).\<close>

definition try_send :: "chan \<Rightarrow> string \<Rightarrow> panic + chan option" where
  "try_send ch message =
     (if chan_closed ch then Inl send_on_closed_channel
      else if 0 < chan_recvq ch then
        Inr (Some (ch\<lparr>chan_recvq := chan_recvq ch - 1,
                      chan_received := chan_received ch @ [message]\<rparr>))
      else if length (chan_buf ch) < chan_cap ch then
        Inr (Some (ch\<lparr>chan_buf := chan_buf ch @ [message]\<rparr>))
      else Inr None)"

text \<open>A request read by \<open>Run\<close>'s \<open>select\<close>.  Go ranges over a map in an order of its own
  choosing, so a broadcast comes with the order \<open>ks\<close> in which this \<open>range h.clients\<close>
  yields the keys; a key that is no longer in the map when its turn comes is not yielded.\<close>

datatype request = Register nat | Unregister nat | Broadcast string "nat list"

fun broadcast_loop :: "string \<Rightarrow> nat list \<Rightarrow> Hub \<Rightarrow> panic + Hub" where
  "broadcast_loop message [] h = Inr h"
| "broadcast_loop message (client # ks) h =
     (if client \<in> dom (clients h) then
        (case try_send (send h client) message of
           Inl p \<Rightarrow> Inl p
         | Inr (Some ch) \<Rightarrow> broadcast_loop message ks (h\<lparr>send := (send h)(client := ch)\<rparr>)
         | Inr None \<Rightarrow>
             (case close_chan (send h client) of
                Inl p \<Rightarrow> Inl p
              | Inr ch \<Rightarrow>
                  broadcast_loop message ks
                    (h\<lparr>send := (send h)(client := ch), clients := (clients h)(client := None)\<rparr>)))
      else broadcast_loop message ks h)"

text \<open>One turn of the \<open>for { select { ... } }\<close> loop of \<open>Hub.Run\<close>.\<close>

fun Hub_Run_step :: "request \<Rightarrow> Hub \<Rightarrow> panic + Hub" where
  "Hub_Run_step (Register client) h = Inr (h\<lparr>clients := (clients h)(client \<mapsto> True)\<rparr>)"
| "Hub_Run_step (Unregister client) h =
     (if client \<in> dom (clients h) then
        (case close_chan (send h client) of
           Inl p \<Rightarrow> Inl p
         | Inr ch \<Rightarrow> Inr (h\<lparr>clients := (clients h)(client := None), send := (send h)(client := ch)\<rparr>))
      else Inr h)"
| "Hub_Run_step (Broadcast message ks) h = broadcast_loop message ks h"

text \<open>The loop over the requests that arrive, one after the other; a panic ends it.\<close>

fun Hub_Run :: "request list \<Rightarrow> Hub \<Rightarrow> panic + Hub" where
  "Hub_Run [] h = Inr h"
| "Hub_Run (r # rs) h =
     (case Hub_Run_step r h of Inl p \<Rightarrow> Inl p | Inr h' \<Rightarrow> Hub_Run rs h')"

text \<open>The order of a \<open>range\<close> over the map: every key once.\<close>

definition range_order :: "nat list \<Rightarrow> Hub \<Rightarrow> bool" where
  "range_order ks h = (distinct ks \<and> set ks = dom (clients h))"

text \<open>Every registered client's channel is open.  \<open>Run\<close> closes a channel exactly when it
  removes its client, so the states \<open>Run\<close> reaches from a new hub have this property on one
  condition: no client registers with a channel that is already closed (a client that was
  dropped or unregistered must not register again).  \<open>registers_open\<close> is that condition on
  a sequence of requests.\<close>

definition hub_ok :: "Hub \<Rightarrow> bool" where
  "hub_ok h = (\<forall>c \<in> dom (clients h). \<not> chan_closed (send h c))"

fun registers_open :: "request list \<Rightarrow> Hub \<Rightarrow> bool" where
  "registers_open [] h = True"
| "registers_open (r # rs) h =
     ((case r of Register client \<Rightarrow> \<not> chan_closed (send h client) | _ \<Rightarrow> True) \<and>
      (case Hub_Run_step r h of Inl p \<Rightarrow> True | Inr h' \<Rightarrow> registers_open rs h'))"


section \<open>Invariants and sample states\<close>

text \<open>\<open>id INTEGER PRIMARY KEY AUTOINCREMENT\<close>: no two rows of a table share an id.\<close>

definition primary_keys :: "DB \<Rightarrow> bool" where
  "primary_keys d = (distinct (map ID (messages d)) \<and> distinct (map CommentID (comments d)))"

text \<open>The invariant of the store: ids are primary keys and no id is above its table's
  \<open>AUTOINCREMENT\<close> counter.\<close>

definition store_ok :: "DB \<Rightarrow> bool" where
  "store_ok d =
     (primary_keys d \<and> list_all (\<lambda>m. ID m \<le> messages_seq d) (messages d) \<and>
      list_all (\<lambda>c. CommentID c \<le> comments_seq d) (comments d))"

text \<open>The outbound queue is full for the hub when its non-blocking send takes the
  \<open>default\<close> branch: no receiver is waiting and the buffer has no room.\<close>

definition send_would_block :: "chan \<Rightarrow> bool" where
  "send_would_block ch = (chan_recvq ch = 0 \<and> \<not> length (chan_buf ch) < chan_cap ch)"

text \<open>The invariant of a Go channel: a receiver blocks only on an empty buffer, the buffer
  never exceeds the capacity, and nobody stays blocked on a closed channel.\<close>

definition chan_ok :: "chan \<Rightarrow> bool" where
  "chan_ok ch =
     ((chan_recvq ch = 0 \<or> chan_buf ch = []) \<and> length (chan_buf ch) \<le> chan_cap ch \<and>
      (chan_recvq ch = 0 \<or> \<not> chan_closed ch))"

text \<open>What a send that does not block does to the channel, and what one broadcast does to
  the channel of a registered client.\<close>

definition deliver :: "string \<Rightarrow> chan \<Rightarrow> chan" where
  "deliver m ch =
     (if 0 < chan_recvq ch
      then ch\<lparr>chan_recvq := chan_recvq ch - 1, chan_received := chan_received ch @ [m]\<rparr>
      else ch\<lparr>chan_buf := chan_buf ch @ [m]\<rparr>)"

definition broadcast_chan :: "string \<Rightarrow> chan \<Rightarrow> chan" where
  "broadcast_chan m ch =
     (if send_would_block ch then ch\<lparr>chan_closed := True, chan_recvq := 0\<rparr> else deliver m ch)"

text \<open>A fresh store, and the store after an anonymous author has posted \<open>Hello\<close> at time
  100 through \<open>MessageUseCase\<close> and a moderator has banned the message.\<close>

definition empty_DB :: DB where
  "empty_DB = \<lparr>messages = [], comments = [], messages_seq = 0, comments_seq = 0\<rparr>"

definition empty_World :: World where
  "empty_World = \<lparr>db = empty_DB, calls = []\<rparr>"

text \<open>An auth service that knows user 1 (in good standing) and user 3 (banned).\<close>

definition auth_example :: "int \<Rightarrow> error + User" where
  "auth_example userID =
     (if userID = 1 then
        Inr \<lparr>UserIdent = 1, UserName = ''testuser'', Role = ''user'', UserIsBanned = False\<rparr>
      else if userID = 3 then
        Inr \<lparr>UserIdent = 3, UserName = ''banned'', Role = ''user'', UserIsBanned = True\<rparr>
      else Inl (errors_New ''user not found''))"

definition hello_message :: "bool \<Rightarrow> Message" where
  "hello_message banned =
     \<lparr>ID = 1, UserID = 0, Username = ''anonymous'', Content = ''Hello'', CreatedAt = 100,
      IsBanned = banned\<rparr>"

definition world_hello :: World where
  "world_hello = snd (MessageUseCase_CreateMessage auth_example 100 0 ''anonymous'' ''Hello'' empty_World)"

definition world_hello_banned :: World where
  "world_hello_banned = snd (MessageUseCase_BanMessage 1 world_hello)"

text \<open>The same store (message not banned) after an anonymous comment \<open>Nice!\<close> on
  message 1 at time 100; the comment expires at time 400.\<close>

definition nice_comment :: Comment where
  "nice_comment =
     \<lparr>CommentID = 1, MessageID = 1, CommentUserID = 0, CommentUsername = ''anonymous'',
      CommentContent = ''Nice!'', CommentCreatedAt = 100, ExpiresAt = 400\<rparr>"

definition world_commented :: World where
  "world_commented =
     snd (MessageUseCase_CreateComment auth_example 100 1 0 ''anonymous'' ''Nice!'' world_hello)"

text \<open>A content of \<open>n\<close> bytes.\<close>

definition long_content :: "nat \<Rightarrow> string" where
  "long_content n = replicate n CHR ''a''"

text \<open>A hub with two registered clients with queues of capacity 1: the queue of client 1
  is full, the queue of client 2 has room.\<close>

definition hub_example :: Hub where
  "hub_example =
     \<lparr>clients = [1 \<mapsto> True, 2 \<mapsto> True],
      send = (\<lambda>_. \<lparr>chan_buf = [], chan_cap = 0, chan_closed = True, chan_recvq = 0,
                    chan_received = []\<rparr>)
               (1 := \<lparr>chan_buf = [''old''], chan_cap = 1, chan_closed = False, chan_recvq = 0,
                      chan_received = []\<rparr>,
                2 := \<lparr>chan_buf = [], chan_cap = 1, chan_closed = False, chan_recvq = 0,
                      chan_received = []\<rparr>)\<rparr>"

text \<open>A hub with two registered clients with unbuffered channels: the goroutine that
  drains the channel of client 1 is blocked in a receive, that of client 2 is not.\<close>

definition hub_unbuffered :: Hub where
  "hub_unbuffered =
     \<lparr>clients = [1 \<mapsto> True, 2 \<mapsto> True],
      send = (\<lambda>_. \<lparr>chan_buf = [], chan_cap = 0, chan_closed = True, chan_recvq = 0,
                    chan_received = []\<rparr>)
               (1 := \<lparr>chan_buf = [], chan_cap = 0, chan_closed = False, chan_recvq = 1,
                      chan_received = []\<rparr>,
                2 := \<lparr>chan_buf = [], chan_cap = 0, chan_closed = False, chan_recvq = 0,
                      chan_received = []\<rparr>)\<rparr>"


section \<open>The store's invariant\<close>

text \<open>The empty store satisfies \<open>store_ok\<close> and every operation of the repository keeps it,
  so the stores the service reaches have primary keys.\<close>

lemma store_ok_empty: "store_ok empty_DB"
  by (simp add: store_ok_def primary_keys_def empty_DB_def)

lemma store_ok_primary_keys: "store_ok d \<Longrightarrow> primary_keys d"
  by (simp add: store_ok_def)

lemma store_ok_Create:
  "store_ok d \<Longrightarrow> store_ok (snd (snd (MessageRepository_Create now message d)))"
  by (auto simp: store_ok_def primary_keys_def MessageRepository_Create_def Let_def list_all_iff)

lemma store_ok_CreateComment:
  "store_ok d \<Longrightarrow> store_ok (snd (MessageRepository_CreateComment now comment d))"
  by (auto simp: store_ok_def primary_keys_def MessageRepository_CreateComment_def Let_def
      list_all_iff split: sum.splits)

lemma map_ID_flag:
  "ID \<circ> (\<lambda>m. if ID m = k then m\<lparr>IsBanned := b\<rparr> else m) = ID"
  by (auto simp: fun_eq_iff)

lemma store_ok_Ban:
  "store_ok d \<Longrightarrow> store_ok (MessageRepository_Ban k d)"
  "store_ok d \<Longrightarrow> store_ok (MessageRepository_Unban k d)"
  by (auto simp: store_ok_def primary_keys_def MessageRepository_Ban_def MessageRepository_Unban_def
      map_ID_flag list_all_iff)

lemma store_ok_Delete:
  "store_ok d \<Longrightarrow> store_ok (MessageRepository_Delete k d)"
  "store_ok d \<Longrightarrow> store_ok (MessageRepository_DeleteComment k d)"
  "store_ok d \<Longrightarrow> store_ok (snd (MessageRepository_DeleteExpiredComments now d))"
  by (auto simp: store_ok_def primary_keys_def MessageRepository_Delete_def
      MessageRepository_DeleteComment_def MessageRepository_DeleteExpiredComments_def
      Let_def list_all_iff distinct_map_filter)


section \<open>Listing messages\<close>

lemma db_world_hello:
  "db world_hello = \<lparr>messages = [hello_message False], comments = [], messages_seq = 1, comments_seq = 0\<rparr>"
  by (simp add: Let_def world_hello_def MessageUseCase_CreateMessage_def validate_user_def
      MessageRepository_Create_def record_call_def empty_World_def empty_DB_def hello_message_def)

lemma db_world_hello_banned:
  "db world_hello_banned = \<lparr>messages = [hello_message True], comments = [], messages_seq = 1, comments_seq = 0\<rparr>"
  by (simp add: world_hello_banned_def MessageUseCase_BanMessage_def Let_def record_call_def
      MessageRepository_GetByID_def MessageRepository_Ban_def db_world_hello hello_message_def)

text \<open>Whatever the limit and offset, the total that \<open>List\<close> returns counts every row of
  the table, and a page that is large enough holds every row.\<close>

lemma MessageRepository_List_total:
  "snd (MessageRepository_List limit offset d) = int (length (messages d))"
  by (simp add: MessageRepository_List_def Let_def)

lemma MessageRepository_List_all_rows:
  "int (length (messages d)) \<le> limit \<Longrightarrow>
   set (fst (MessageRepository_List limit 0 d)) = set (messages d)"
  by (simp add: MessageRepository_List_def Let_def sql_limit_offset_def order_by_created_at_desc_def)

text \<open>
  Claim C1: \<open>getMessages(limit, offset)\<close> returns only messages whose banned flag is
  false, newest first, and its total counts only the non-banned messages, while
  \<open>getAllMessages()\<close> returns banned messages too.

  The code does not do this.  After \<open>Hello\<close> has been posted and banned, both use cases'
  \<open>GetMessages(10, 0)\<close> return the banned message with total 1, exactly what
  \<open>GetAllMessages\<close> returns: the two SQL statements of \<open>List\<close> have no
  \<open>WHERE is_banned = 0\<close>.
\<close>

theorem C1_banned_message_listed:
  "fst (MessageUseCase_GetMessages 10 0 world_hello_banned) = ([hello_message True], 1) \<and>
   fst (UseCase_GetMessages 10 0 world_hello_banned) = ([hello_message True], 1) \<and>
   IsBanned (hello_message True) \<and>
   fst (MessageUseCase_GetAllMessages world_hello_banned) = [hello_message True]"
  by (simp add: Let_def MessageUseCase_GetMessages_def UseCase_GetMessages_def MessageUseCase_GetAllMessages_def
      MessageRepository_List_def MessageRepository_GetAllMessages_def order_by_created_at_desc_def
      sql_limit_offset_def db_world_hello_banned hello_message_def)



section \<open>Comments and their expiry\<close>

lemma db_world_commented:
  "db world_commented =
     \<lparr>messages = [hello_message False], comments = [nice_comment], messages_seq = 1, comments_seq = 1\<rparr>"
  by (simp add: Let_def world_commented_def MessageUseCase_CreateComment_def validate_user_def
      MessageRepository_CreateComment_def MessageRepository_GetByID_def record_call_def
      db_world_hello hello_message_def nice_comment_def)

lemma primary_keys_world_commented: "primary_keys (db world_commented)"
  by (simp add: primary_keys_def db_world_commented)

lemma fst_GetComments:
  "fst (MessageUseCase_GetComments now mid w) = MessageRepository_GetComments now mid (db w)"
  "fst (UseCase_GetComments now mid w) = MessageRepository_GetComments now mid (db w)"
  by (simp_all add: MessageUseCase_GetComments_def UseCase_GetComments_def)

lemma MessageRepository_GetComments_set:
  "MessageRepository_GetComments now mid d = Inr cs \<Longrightarrow>
   set cs = {c \<in> set (comments d). MessageID c = mid \<and> now < ExpiresAt c}"
  by (auto simp: MessageRepository_GetComments_def order_by_created_at_asc_def split: sum.splits)

lemma find_by_key_distinct:
  "distinct (map f xs) \<Longrightarrow> x \<in> set xs \<Longrightarrow> find (\<lambda>y. f y = f x) xs = Some x"
  by (induction xs) auto

lemma MessageRepository_GetCommentByID_stored:
  "primary_keys d \<Longrightarrow> c \<in> set (comments d) \<Longrightarrow>
   MessageRepository_GetCommentByID (CommentID c) d = Inr c"
  by (simp add: MessageRepository_GetCommentByID_def primary_keys_def find_by_key_distinct)

text \<open>
  Claim C2: no comment returned by a read (\<open>getComments\<close>, \<open>getCommentById\<close>) has
  \<open>now >= expiresAt\<close>, even before the sweep has removed it.

  This fails for \<open>GetCommentByID\<close>, whose query has no expiry test: at time 1000 it
  returns the comment that expired at time 400, while \<open>GetComments\<close> at the same time
  returns nothing.
\<close>

theorem C2_GetCommentByID_returns_expired_counterexample:
  "MessageRepository_GetCommentByID 1 (db world_commented) = Inr nice_comment \<and>
   ExpiresAt nice_comment \<le> 1000 \<and>
   MessageRepository_GetComments 1000 1 (db world_commented) = Inr []"
  by (simp add: MessageRepository_GetCommentByID_def MessageRepository_GetComments_def
      MessageRepository_GetByID_def order_by_created_at_asc_def db_world_commented
      nice_comment_def hello_message_def)

text \<open>
  Claim C2, amended: \<open>getComments\<close> returns exactly the stored comments of the message
  with \<open>now < expiresAt\<close>, so never an expired one, swept or not; \<open>getCommentById\<close>
  returns the stored comment with that id whether or not it has expired.
\<close>

theorem C2_reads_and_expiry:
  "(\<forall>cs. fst (MessageUseCase_GetComments now mid w) = Inr cs \<or>
         fst (UseCase_GetComments now mid w) = Inr cs \<longrightarrow>
      (\<forall>c. c \<in> set cs \<longleftrightarrow> c \<in> set (comments (db w)) \<and> MessageID c = mid \<and> now < ExpiresAt c)) \<and>
   (primary_keys d \<and> c \<in> set (comments d) \<longrightarrow>
      MessageRepository_GetCommentByID (CommentID c) d = Inr c)"
  using MessageRepository_GetComments_set[of now mid "db w"] MessageRepository_GetCommentByID_stored[of d c]
  by (auto simp: fst_GetComments)

theorem C2_reads_and_expiry_witness:
  "fst (MessageUseCase_GetComments 200 1 world_commented) = Inr [nice_comment] \<and>
   (200 :: int) < ExpiresAt nice_comment \<and>
   primary_keys (db world_commented) \<and> nice_comment \<in> set (comments (db world_commented)) \<and>
   ExpiresAt nice_comment \<le> 1000 \<and>
   MessageRepository_GetCommentByID (CommentID nice_comment) (db world_commented) = Inr nice_comment"
proof -
  have a: "fst (MessageUseCase_GetComments 200 1 world_commented) = Inr [nice_comment]"
    by (simp add: fst_GetComments MessageRepository_GetComments_def MessageRepository_GetByID_def
        order_by_created_at_asc_def db_world_commented nice_comment_def hello_message_def)
  have b: "nice_comment \<in> set (comments (db world_commented))"
    by (simp add: db_world_commented)
  from C2_reads_and_expiry[of 200 1 world_commented "db world_commented" nice_comment] a
  have c: "nice_comment \<in> set [nice_comment] \<longleftrightarrow>
       nice_comment \<in> set (comments (db world_commented)) \<and> MessageID nice_comment = 1 \<and>
       200 < ExpiresAt nice_comment"
    by blast
  from C2_reads_and_expiry[of 200 1 world_commented "db world_commented" nice_comment]
    primary_keys_world_commented b
  have d: "MessageRepository_GetCommentByID (CommentID nice_comment) (db world_commented) = Inr nice_comment"
    by blast
  have e: "ExpiresAt nice_comment \<le> 1000" by (simp add: nice_comment_def)
  from a b c d e primary_keys_world_commented show ?thesis by simp
qed

lemma MessageUseCase_CleanupExpiredComments_eq:
  "MessageUseCase_CleanupExpiredComments now w =
     (None, \<lparr>db = (db w)\<lparr>comments := filter (\<lambda>c. now < ExpiresAt c) (comments (db w))\<rparr>,
             calls = calls w @ [Repo_DeleteExpiredComments]\<rparr>)"
  by (simp add: MessageUseCase_CleanupExpiredComments_def MessageRepository_DeleteExpiredComments_def
      record_call_def not_le)

lemma sweep_later:
  "now \<le> now' \<Longrightarrow>
   snd (MessageRepository_DeleteExpiredComments now' (snd (MessageRepository_DeleteExpiredComments now d))) =
   snd (MessageRepository_DeleteExpiredComments now' d)"
proof -
  assume le: "now \<le> now'"
  have "filter (\<lambda>c. \<not> ExpiresAt c \<le> now') (filter (\<lambda>c. \<not> ExpiresAt c \<le> now) (comments d)) =
        filter (\<lambda>c. \<not> ExpiresAt c \<le> now') (comments d)"
    using le by (auto intro: filter_cong)
  then show ?thesis by (simp add: MessageRepository_DeleteExpiredComments_def)
qed

text \<open>
  Claim C6: \<open>expireComments()\<close> deletes exactly the comments whose expiry has passed, is
  idempotent, and returns the number of comments removed.

  The sweep returns no number: its result is \<open>nil\<close> both when it removes one comment and
  when it removes none.  And what a second sweep deletes depends on the clock: after a sweep
  at time 200, a sweep at time 1000 removes the comment that expired in between.
\<close>

theorem C6_sweep_returns_no_count_counterexample:
  "fst (MessageUseCase_CleanupExpiredComments 1000 world_commented) = None \<and>
   comments (db world_commented) = [nice_comment] \<and>
   comments (db (snd (MessageUseCase_CleanupExpiredComments 1000 world_commented))) = [] \<and>
   fst (MessageUseCase_CleanupExpiredComments 1000 world_hello) = None \<and>
   comments (db world_hello) = [] \<and>
   comments (db (snd (MessageUseCase_CleanupExpiredComments 1000 world_hello))) = [] \<and>
   comments (db (snd (MessageUseCase_CleanupExpiredComments 200 world_commented))) = [nice_comment] \<and>
   comments (db (snd (MessageUseCase_CleanupExpiredComments 1000
                        (snd (MessageUseCase_CleanupExpiredComments 200 world_commented))))) = []"
  by (simp add: MessageUseCase_CleanupExpiredComments_eq db_world_commented db_world_hello
      nice_comment_def)

text \<open>
  Claim C6, amended: the sweep deletes exactly the comments with \<open>expiresAt <= now\<close> and
  nothing else, returns only a \<open>nil\<close> error (no count), and a second sweep at the same
  clock reading changes nothing.
\<close>

theorem C6_sweep_deletes_expired_idempotent:
  "fst (MessageUseCase_CleanupExpiredComments now w) = None \<and>
   fst (MessageRepository_DeleteExpiredComments now d) = None \<and>
   db (snd (MessageUseCase_CleanupExpiredComments now w)) =
     snd (MessageRepository_DeleteExpiredComments now (db w)) \<and>
   comments (snd (MessageRepository_DeleteExpiredComments now d)) =
     filter (\<lambda>c. \<not> ExpiresAt c \<le> now) (comments d) \<and>
   messages (snd (MessageRepository_DeleteExpiredComments now d)) = messages d \<and>
   MessageRepository_DeleteExpiredComments now (snd (MessageRepository_DeleteExpiredComments now d)) =
     MessageRepository_DeleteExpiredComments now d \<and>
   db (snd (MessageUseCase_CleanupExpiredComments now (snd (MessageUseCase_CleanupExpiredComments now w)))) =
     db (snd (MessageUseCase_CleanupExpiredComments now w))"
  by (simp add: MessageUseCase_CleanupExpiredComments_eq MessageRepository_DeleteExpiredComments_def not_le)


section \<open>Deleting a message\<close>

lemma find_filter_None:
  "distinct (map f xs) \<Longrightarrow> x \<in> set xs \<Longrightarrow> \<not> P x \<Longrightarrow> find (\<lambda>y. f y = f x) (filter P xs) = None"
  by (auto simp: find_None_iff distinct_map dest: inj_onD)

lemma find_filter_Some:
  "distinct (map f xs) \<Longrightarrow> x \<in> set xs \<Longrightarrow> P x \<Longrightarrow> find (\<lambda>y. f y = f x) (filter P xs) = Some x"
  by (rule find_by_key_distinct) (auto simp: distinct_map_filter)

lemma GetByID_absent:
  "\<forall>m \<in> set (messages d). ID m \<noteq> mid \<Longrightarrow>
   MessageRepository_GetByID mid d = Inl (errors_New ''message not found'')"
proof -
  assume "\<forall>m \<in> set (messages d). ID m \<noteq> mid"
  then have "find (\<lambda>m. ID m = mid) (messages d) = None" by (simp add: find_None_iff)
  then show ?thesis by (simp add: MessageRepository_GetByID_def)
qed

lemma GetByID_present:
  "m \<in> set (messages d) \<Longrightarrow> ID m = mid \<Longrightarrow> \<exists>m'. MessageRepository_GetByID mid d = Inr m' \<and> ID m' = mid"
proof -
  assume a: "m \<in> set (messages d)" "ID m = mid"
  then have "find (\<lambda>m. ID m = mid) (messages d) \<noteq> None" by (auto simp: find_None_iff)
  then obtain m' where f: "find (\<lambda>m. ID m = mid) (messages d) = Some m'" by blast
  then have "ID m' = mid" by (auto simp: find_Some_iff)
  with f show ?thesis by (simp add: MessageRepository_GetByID_def)
qed

lemma DeleteMessage_present:
  assumes "m \<in> set (messages (db w))" and "ID m = mid"
  shows "fst (MessageUseCase_DeleteMessage mid w) = None"
    and "db (snd (MessageUseCase_DeleteMessage mid w)) = MessageRepository_Delete mid (db w)"
proof -
  from assms have "find (\<lambda>m. ID m = mid) (messages (db w)) \<noteq> None"
    by (auto simp: find_None_iff)
  then obtain m' where "find (\<lambda>m. ID m = mid) (messages (db w)) = Some m'" by blast
  then show "fst (MessageUseCase_DeleteMessage mid w) = None"
    and "db (snd (MessageUseCase_DeleteMessage mid w)) = MessageRepository_Delete mid (db w)"
    by (simp_all add: MessageUseCase_DeleteMessage_def MessageRepository_GetByID_def record_call_def Let_def)
qed

lemma MessageRepository_Delete_GetByID:
  "MessageRepository_GetByID mid (MessageRepository_Delete mid d) = Inl (errors_New ''message not found'')"
proof -
  have "find (\<lambda>m. ID m = mid) (filter (\<lambda>m. ID m \<noteq> mid) (messages d)) = None"
    by (simp add: find_None_iff)
  then show ?thesis
    by (simp add: MessageRepository_GetByID_def MessageRepository_Delete_def Let_def)
qed

text \<open>
  Claim C7: for a message id present in storage, \<open>deleteMessage(id)\<close> removes the message
  and all comments whose parent is that message, so that afterwards \<open>getCommentById\<close> for
  any former child returns the not-found error.

  Stated for both use cases, on a store whose ids are primary keys; comments of other
  messages are still found.
\<close>

theorem C7_delete_message_cascades:
  assumes "primary_keys (db w)" and "m \<in> set (messages (db w))" and "ID m = mid"
  shows "fst (MessageUseCase_DeleteMessage mid w) = None \<and>
         fst (UseCase_DeleteMessage mid w) = None \<and>
         db (snd (MessageUseCase_DeleteMessage mid w)) = MessageRepository_Delete mid (db w) \<and>
         db (snd (UseCase_DeleteMessage mid w)) = MessageRepository_Delete mid (db w) \<and>
         MessageRepository_GetByID mid (MessageRepository_Delete mid (db w)) =
           Inl (errors_New ''message not found'') \<and>
         (\<forall>c \<in> set (comments (db w)).
            MessageRepository_GetCommentByID (CommentID c) (MessageRepository_Delete mid (db w)) =
              (if MessageID c = mid then Inl (errors_New ''comment not found'') else Inr c))"
proof -
  from assms(1) have dc: "distinct (map CommentID (comments (db w)))"
    by (simp add: primary_keys_def)
  have "MessageRepository_GetCommentByID (CommentID c) (MessageRepository_Delete mid (db w)) =
          (if MessageID c = mid then Inl (errors_New ''comment not found'') else Inr c)"
    if "c \<in> set (comments (db w))" for c
    using find_filter_None[OF dc that, of "\<lambda>c. MessageID c \<noteq> mid"]
          find_filter_Some[OF dc that, of "\<lambda>c. MessageID c \<noteq> mid"]
    by (simp add: MessageRepository_GetCommentByID_def MessageRepository_Delete_def Let_def)
  then show ?thesis
    using DeleteMessage_present[OF assms(2,3)] MessageRepository_Delete_GetByID[of mid "db w"]
    by (simp add: UseCase_DeleteMessage_def record_call_def)
qed

theorem C7_delete_message_cascades_witness:
  "primary_keys (db world_commented) \<and> hello_message False \<in> set (messages (db world_commented)) \<and>
   ID (hello_message False) = 1 \<and> nice_comment \<in> set (comments (db world_commented)) \<and>
   MessageID nice_comment = 1 \<and>
   fst (MessageUseCase_DeleteMessage 1 world_commented) = None \<and>
   MessageRepository_GetCommentByID 1 (db (snd (MessageUseCase_DeleteMessage 1 world_commented))) =
     Inl (errors_New ''comment not found'') \<and>
   MessageRepository_GetCommentByID 1 (db (snd (UseCase_DeleteMessage 1 world_commented))) =
     Inl (errors_New ''comment not found'')"
proof -
  have m: "hello_message False \<in> set (messages (db world_commented))"
    and c: "nice_comment \<in> set (comments (db world_commented))"
    by (simp_all add: db_world_commented)
  have i: "ID (hello_message False) = 1" and j: "MessageID nice_comment = 1"
    and k: "CommentID nice_comment = 1"
    by (simp_all add: hello_message_def nice_comment_def)
  from C7_delete_message_cascades[OF primary_keys_world_commented m i] c j k
  show ?thesis using primary_keys_world_commented m i by auto
qed

text \<open>
  Claim C10: for a message id not present in storage, \<open>getComments(messageId)\<close> returns
  the error \<open>message not found\<close> rather than an empty list; a deleted message gives the
  same error as one that never existed, and a message that exists and has no live comment
  gives the empty list.
\<close>

theorem C10_get_comments_unknown_message:
  "((\<forall>m \<in> set (messages (db w)). ID m \<noteq> mid) \<longrightarrow>
      fst (MessageUseCase_GetComments now mid w) = Inl (errors_New ''message not found'') \<and>
      fst (UseCase_GetComments now mid w) = Inl (errors_New ''message not found'')) \<and>
   MessageRepository_GetComments now mid (MessageRepository_Delete mid d) =
      Inl (errors_New ''message not found'') \<and>
   ((\<exists>m \<in> set (messages (db w)). ID m = mid) \<and>
    (\<forall>c \<in> set (comments (db w)). MessageID c = mid \<longrightarrow> ExpiresAt c \<le> now) \<longrightarrow>
      fst (MessageUseCase_GetComments now mid w) = Inr [] \<and>
      fst (UseCase_GetComments now mid w) = Inr [])"
proof -
  have a: "MessageRepository_GetComments now mid (db w) = Inl (errors_New ''message not found'')"
    if "\<forall>m \<in> set (messages (db w)). ID m \<noteq> mid"
    using GetByID_absent[OF that] by (simp add: MessageRepository_GetComments_def)
  have b: "MessageRepository_GetComments now mid (MessageRepository_Delete mid d) =
      Inl (errors_New ''message not found'')"
    by (simp add: MessageRepository_GetComments_def MessageRepository_Delete_GetByID)
  have c: "MessageRepository_GetComments now mid (db w) = Inr []"
    if "\<exists>m \<in> set (messages (db w)). ID m = mid"
      and "\<forall>c \<in> set (comments (db w)). MessageID c = mid \<longrightarrow> ExpiresAt c \<le> now"
  proof -
    from that(1) obtain m where "m \<in> set (messages (db w))" "ID m = mid" by blast
    from GetByID_present[OF this] obtain m' where "MessageRepository_GetByID mid (db w) = Inr m'"
      by blast
    moreover from that(2)
    have "filter (\<lambda>c. MessageID c = mid \<and> now < ExpiresAt c) (comments (db w)) = []"
      by (auto simp: filter_empty_conv)
    ultimately show ?thesis
      by (simp add: MessageRepository_GetComments_def order_by_created_at_asc_def)
  qed
  from a b c show ?thesis by (simp add: fst_GetComments)
qed

theorem C10_get_comments_unknown_message_witness:
  "2 \<notin> set (map ID (messages (db world_commented))) \<and>
   fst (MessageUseCase_GetComments 1000 2 world_commented) = Inl (errors_New ''message not found'') \<and>
   fst (UseCase_GetComments 1000 2 world_commented) = Inl (errors_New ''message not found'') \<and>
   MessageRepository_GetComments 1000 1 (MessageRepository_Delete 1 (db world_commented)) =
      Inl (errors_New ''message not found'') \<and>
   (\<exists>m \<in> set (messages (db world_commented)). ID m = 1) \<and>
   fst (MessageUseCase_GetComments 1000 1 world_commented) = Inr [] \<and>
   fst (UseCase_GetComments 1000 1 world_commented) = Inr []"
proof -
  have a: "\<forall>m \<in> set (messages (db world_commented)). ID m \<noteq> 2"
    by (simp add: db_world_commented hello_message_def)
  have b: "\<exists>m \<in> set (messages (db world_commented)). ID m = 1"
    by (simp add: db_world_commented hello_message_def)
  have c: "\<forall>c \<in> set (comments (db world_commented)). MessageID c = 1 \<longrightarrow> ExpiresAt c \<le> 1000"
    by (simp add: db_world_commented nice_comment_def)
  from C10_get_comments_unknown_message[of world_commented 2 1000 "db world_commented"] a
  have d: "fst (MessageUseCase_GetComments 1000 2 world_commented) = Inl (errors_New ''message not found'') \<and>
      fst (UseCase_GetComments 1000 2 world_commented) = Inl (errors_New ''message not found'')"
    by blast
  from C10_get_comments_unknown_message[of world_commented 1 1000 "db world_commented"] b c
  have e: "MessageRepository_GetComments 1000 1 (MessageRepository_Delete 1 (db world_commented)) =
      Inl (errors_New ''message not found'') \<and>
      fst (MessageUseCase_GetComments 1000 1 world_commented) = Inr [] \<and>
      fst (UseCase_GetComments 1000 1 world_commented) = Inr []"
    by blast
  from a have a': "2 \<notin> set (map ID (messages (db world_commented)))" by auto
  from a' b d e show ?thesis by blast
qed


section \<open>Creating messages and comments\<close>

lemma validate_user_anonymous: "validate_user GetUser 0 w = (None, w)"
  by (simp add: validate_user_def)

lemma validate_user_cases:
  "userID \<noteq> 0 \<Longrightarrow>
   validate_user GetUser userID w =
     ((case GetUser userID of Inl err \<Rightarrow> Some err
       | Inr user \<Rightarrow> if UserIsBanned user then Some (errors_New ''user is banned'') else None),
      record_call (AuthClient_GetUser userID) w)"
  by (simp add: validate_user_def split: sum.splits)

lemma MessageUseCase_CreateMessage_anonymous:
  "content \<noteq> [] \<Longrightarrow>
   MessageUseCase_CreateMessage GetUser now 0 username content w =
     (Inr \<lparr>ID = messages_seq (db w) + 1, UserID = 0, Username = username, Content = content,
           CreatedAt = now, IsBanned = False\<rparr>,
      \<lparr>db = (db w)\<lparr>messages := messages (db w) @
                 [\<lparr>ID = messages_seq (db w) + 1, UserID = 0, Username = username,
                   Content = content, CreatedAt = now, IsBanned = False\<rparr>],
               messages_seq := messages_seq (db w) + 1\<rparr>,
       calls = calls w @
         [Repo_Create \<lparr>ID = 0, UserID = 0, Username = username, Content = content,
                       CreatedAt = now, IsBanned = False\<rparr>,
          Hub_BroadcastMessage \<lparr>ID = messages_seq (db w) + 1, UserID = 0, Username = username,
                       Content = content, CreatedAt = now, IsBanned = False\<rparr>]\<rparr>)"
  by (simp add: MessageUseCase_CreateMessage_def validate_user_anonymous
      MessageRepository_Create_def record_call_def Let_def)

text \<open>\<open>MessageUseCase\<close> refuses empty content before any collaborator is called.\<close>

lemma MessageUseCase_empty_content_refused:
  "MessageUseCase_CreateMessage GetUser now userID username [] w =
     (Inl (errors_New ''content is required''), w)"
  "MessageUseCase_CreateComment GetUser now messageID userID username [] w =
     (Inl (errors_New ''content is required''), w)"
  by (simp_all add: MessageUseCase_CreateMessage_def MessageUseCase_CreateComment_def)

text \<open>
  Claim C3: for content that is empty or longer than the bound (1000 bytes for a message,
  500 for a comment), \<open>createMessage\<close> and \<open>createComment\<close> return a validation error,
  make no persistence call and publish nothing.

  The code does not do this.  \<open>MessageUseCase\<close> tests only \<open>content == ""\<close>: a message of
  1001 bytes is stored and broadcast, a comment of 501 bytes is stored.  \<open>UseCase\<close> tests
  nothing: a message with empty content is stored.
\<close>

theorem C3_overlong_and_empty_content_persisted:
  "length (long_content 1001) = 1001 \<and>
   MessageUseCase_CreateMessage auth_example 100 0 ''anonymous'' (long_content 1001) empty_World =
     (Inr \<lparr>ID = 1, UserID = 0, Username = ''anonymous'', Content = long_content 1001,
           CreatedAt = 100, IsBanned = False\<rparr>,
      \<lparr>db = \<lparr>messages = [\<lparr>ID = 1, UserID = 0, Username = ''anonymous'',
                            Content = long_content 1001, CreatedAt = 100, IsBanned = False\<rparr>],
              comments = [], messages_seq = 1, comments_seq = 0\<rparr>,
       calls = [Repo_Create \<lparr>ID = 0, UserID = 0, Username = ''anonymous'',
                             Content = long_content 1001, CreatedAt = 100, IsBanned = False\<rparr>,
                Hub_BroadcastMessage \<lparr>ID = 1, UserID = 0, Username = ''anonymous'',
                             Content = long_content 1001, CreatedAt = 100, IsBanned = False\<rparr>]\<rparr>) \<and>
   length (long_content 501) = 501 \<and>
   fst (MessageUseCase_CreateComment auth_example 100 1 0 ''anonymous'' (long_content 501) world_hello) =
     Inr \<lparr>CommentID = 1, MessageID = 1, CommentUserID = 0, CommentUsername = ''anonymous'',
          CommentContent = long_content 501, CommentCreatedAt = 100, ExpiresAt = 400\<rparr> \<and>
   comments (db (snd (MessageUseCase_CreateComment auth_example 100 1 0 ''anonymous''
                        (long_content 501) world_hello))) =
     [\<lparr>CommentID = 1, MessageID = 1, CommentUserID = 0, CommentUsername = ''anonymous'',
       CommentContent = long_content 501, CommentCreatedAt = 100, ExpiresAt = 400\<rparr>] \<and>
   fst (UseCase_CreateMessage 100 0 ''anonymous'' [] empty_World) =
     Inr \<lparr>ID = 1, UserID = 0, Username = ''anonymous'', Content = [], CreatedAt = 100,
          IsBanned = False\<rparr> \<and>
   messages (db (snd (UseCase_CreateMessage 100 0 ''anonymous'' [] empty_World))) =
     [\<lparr>ID = 1, UserID = 0, Username = ''anonymous'', Content = [], CreatedAt = 100,
       IsBanned = False\<rparr>]"
proof -
  have ne: "long_content 1001 \<noteq> []" "long_content 501 \<noteq> []"
    by (simp_all add: long_content_def)
  have a: "length (long_content 1001) = 1001" "length (long_content 501) = 501"
    by (simp_all add: long_content_def)
  have b: "MessageUseCase_CreateMessage auth_example 100 0 ''anonymous'' (long_content 1001) empty_World =
     (Inr \<lparr>ID = 1, UserID = 0, Username = ''anonymous'', Content = long_content 1001,
           CreatedAt = 100, IsBanned = False\<rparr>,
      \<lparr>db = \<lparr>messages = [\<lparr>ID = 1, UserID = 0, Username = ''anonymous'',
                            Content = long_content 1001, CreatedAt = 100, IsBanned = False\<rparr>],
              comments = [], messages_seq = 1, comments_seq = 0\<rparr>,
       calls = [Repo_Create \<lparr>ID = 0, UserID = 0, Username = ''anonymous'',
                             Content = long_content 1001, CreatedAt = 100, IsBanned = False\<rparr>,
                Hub_BroadcastMessage \<lparr>ID = 1, UserID = 0, Username = ''anonymous'',
                             Content = long_content 1001, CreatedAt = 100, IsBanned = False\<rparr>]\<rparr>)"
    by (simp add: MessageUseCase_CreateMessage_anonymous[OF ne(1)] empty_World_def empty_DB_def)
  have c: "MessageUseCase_CreateComment auth_example 100 1 0 ''anonymous'' (long_content 501) world_hello =
     (Inr \<lparr>CommentID = 1, MessageID = 1, CommentUserID = 0, CommentUsername = ''anonymous'',
          CommentContent = long_content 501, CommentCreatedAt = 100, ExpiresAt = 400\<rparr>,
      \<lparr>db = \<lparr>messages = [hello_message False],
              comments = [\<lparr>CommentID = 1, MessageID = 1, CommentUserID = 0,
                 CommentUsername = ''anonymous'', CommentContent = long_content 501,
                 CommentCreatedAt = 100, ExpiresAt = 400\<rparr>],
              messages_seq = 1, comments_seq = 1\<rparr>,
       calls = calls world_hello @
         [Repo_CreateComment \<lparr>CommentID = 0, MessageID = 1, CommentUserID = 0,
                 CommentUsername = ''anonymous'', CommentContent = long_content 501,
                 CommentCreatedAt = 100, ExpiresAt = 0\<rparr>]\<rparr>)"
    using ne(2)
    by (simp add: MessageUseCase_CreateComment_def validate_user_anonymous
        MessageRepository_CreateComment_def MessageRepository_GetByID_def record_call_def Let_def
        db_world_hello hello_message_def)
  have d: "UseCase_CreateMessage 100 0 ''anonymous'' [] empty_World =
     (Inr \<lparr>ID = 1, UserID = 0, Username = ''anonymous'', Content = [], CreatedAt = 100,
          IsBanned = False\<rparr>,
      \<lparr>db = \<lparr>messages = [\<lparr>ID = 1, UserID = 0, Username = ''anonymous'', Content = [],
                             CreatedAt = 100, IsBanned = False\<rparr>],
              comments = [], messages_seq = 1, comments_seq = 0\<rparr>,
       calls = [Repo_Create \<lparr>ID = 0, UserID = 0, Username = ''anonymous'', Content = [],
                             CreatedAt = 0, IsBanned = False\<rparr>]\<rparr>)"
    by (simp add: UseCase_CreateMessage_def MessageRepository_Create_def record_call_def Let_def
        empty_World_def empty_DB_def)
  show ?thesis
    unfolding b c d using a by simp
qed

text \<open>\<open>MessageUseCase\<close> looks a non-anonymous author up before anything else and stops
  when the lookup fails or the user is banned.\<close>

lemma MessageUseCase_rejects_unresolved_user:
  assumes "userID \<noteq> 0" and "content \<noteq> []" and "GetUser userID = Inl err"
  shows "MessageUseCase_CreateMessage GetUser now userID username content w =
           (Inl err, record_call (AuthClient_GetUser userID) w)"
    and "MessageUseCase_CreateComment GetUser now messageID userID username content w =
           (Inl err, record_call (AuthClient_GetUser userID) w)"
  using assms
  by (simp_all add: MessageUseCase_CreateMessage_def MessageUseCase_CreateComment_def validate_user_cases)

lemma MessageUseCase_rejects_banned_user:
  assumes "userID \<noteq> 0" and "content \<noteq> []" and "GetUser userID = Inr user" and "UserIsBanned user"
  shows "MessageUseCase_CreateMessage GetUser now userID username content w =
           (Inl (errors_New ''user is banned''), record_call (AuthClient_GetUser userID) w)"
    and "MessageUseCase_CreateComment GetUser now messageID userID username content w =
           (Inl (errors_New ''user is banned''), record_call (AuthClient_GetUser userID) w)"
  using assms
  by (simp_all add: MessageUseCase_CreateMessage_def MessageUseCase_CreateComment_def validate_user_cases)

lemma MessageUseCase_lookup_before_persisting:
  assumes "userID \<noteq> 0" and "content \<noteq> []"
  shows "\<exists>rest. calls (snd (MessageUseCase_CreateMessage GetUser now userID username content w)) =
           calls w @ AuthClient_GetUser userID # rest"
  using assms
  by (auto simp: MessageUseCase_CreateMessage_def validate_user_cases record_call_def Let_def
      MessageRepository_Create_def split: sum.splits)

text \<open>
  Claim C8: with a non-zero user id, the auth collaborator is asked before persisting, and a
  banned or unresolvable user gets an authorization error and nothing is persisted; user
  id 0 skips the lookup.

  \<open>MessageUseCase\<close> does this; \<open>UseCase\<close> does not: it never calls the auth client, and
  stores the message and the comment of the banned user 3.
\<close>

theorem C8_UseCase_creates_without_lookup:
  "(\<exists>user. auth_example 3 = Inr user \<and> UserIsBanned user) \<and>
   UseCase_CreateMessage 100 3 ''banned'' ''Banned user message'' empty_World =
     (Inr \<lparr>ID = 1, UserID = 3, Username = ''banned'', Content = ''Banned user message'',
           CreatedAt = 100, IsBanned = False\<rparr>,
      \<lparr>db = \<lparr>messages = [\<lparr>ID = 1, UserID = 3, Username = ''banned'',
                            Content = ''Banned user message'', CreatedAt = 100, IsBanned = False\<rparr>],
              comments = [], messages_seq = 1, comments_seq = 0\<rparr>,
       calls = [Repo_Create \<lparr>ID = 0, UserID = 3, Username = ''banned'',
                             Content = ''Banned user message'', CreatedAt = 0, IsBanned = False\<rparr>]\<rparr>) \<and>
   fst (UseCase_CreateComment 100 1 3 ''banned'' ''Banned user comment'' world_hello) =
     Inr \<lparr>CommentID = 1, MessageID = 1, CommentUserID = 3, CommentUsername = ''banned'',
          CommentContent = ''Banned user comment'', CommentCreatedAt = 100, ExpiresAt = 400\<rparr> \<and>
   calls (snd (UseCase_CreateComment 100 1 3 ''banned'' ''Banned user comment'' world_hello)) =
     calls world_hello @
       [Repo_CreateComment \<lparr>CommentID = 0, MessageID = 1, CommentUserID = 3,
          CommentUsername = ''banned'', CommentContent = ''Banned user comment'',
          CommentCreatedAt = 100, ExpiresAt = 0\<rparr>] \<and>
   MessageUseCase_CreateMessage auth_example 100 3 ''banned'' ''Banned user message'' empty_World =
     (Inl (errors_New ''user is banned''), \<lparr>db = empty_DB, calls = [AuthClient_GetUser 3]\<rparr>)"
proof -
  have a: "\<exists>user. auth_example 3 = Inr user \<and> UserIsBanned user"
    by (simp add: auth_example_def)
  have b: "UseCase_CreateMessage 100 3 ''banned'' ''Banned user message'' empty_World =
     (Inr \<lparr>ID = 1, UserID = 3, Username = ''banned'', Content = ''Banned user message'',
           CreatedAt = 100, IsBanned = False\<rparr>,
      \<lparr>db = \<lparr>messages = [\<lparr>ID = 1, UserID = 3, Username = ''banned'',
                            Content = ''Banned user message'', CreatedAt = 100, IsBanned = False\<rparr>],
              comments = [], messages_seq = 1, comments_seq = 0\<rparr>,
       calls = [Repo_Create \<lparr>ID = 0, UserID = 3, Username = ''banned'',
                             Content = ''Banned user message'', CreatedAt = 0, IsBanned = False\<rparr>]\<rparr>)"
    by (simp add: UseCase_CreateMessage_def MessageRepository_Create_def record_call_def Let_def
        empty_World_def empty_DB_def)
  have c: "UseCase_CreateComment 100 1 3 ''banned'' ''Banned user comment'' world_hello =
     (Inr \<lparr>CommentID = 1, MessageID = 1, CommentUserID = 3, CommentUsername = ''banned'',
          CommentContent = ''Banned user comment'', CommentCreatedAt = 100, ExpiresAt = 400\<rparr>,
      \<lparr>db = \<lparr>messages = [hello_message False],
              comments = [\<lparr>CommentID = 1, MessageID = 1, CommentUserID = 3,
                 CommentUsername = ''banned'', CommentContent = ''Banned user comment'',
                 CommentCreatedAt = 100, ExpiresAt = 400\<rparr>],
              messages_seq = 1, comments_seq = 1\<rparr>,
       calls = calls world_hello @
         [Repo_CreateComment \<lparr>CommentID = 0, MessageID = 1, CommentUserID = 3,
            CommentUsername = ''banned'', CommentContent = ''Banned user comment'',
            CommentCreatedAt = 100, ExpiresAt = 0\<rparr>]\<rparr>)"
    by (simp add: UseCase_CreateComment_def MessageRepository_CreateComment_def
        MessageRepository_GetByID_def record_call_def Let_def db_world_hello hello_message_def)
  have d: "MessageUseCase_CreateMessage auth_example 100 3 ''banned'' ''Banned user message'' empty_World =
     (Inl (errors_New ''user is banned''), \<lparr>db = empty_DB, calls = [AuthClient_GetUser 3]\<rparr>)"
    by (simp add: MessageUseCase_CreateMessage_def validate_user_def auth_example_def
        record_call_def empty_World_def)
  show ?thesis unfolding b c d using a by simp
qed


section \<open>Banning and unbanning\<close>

text \<open>\<open>MessageUseCase\<close>: the error of the lookup for an absent message and nothing else;
  for a message that is there, the flag in the store and one broadcast of the message with
  its new flag.\<close>

lemma MessageUseCase_BanMessage_absent:
  assumes "\<forall>m \<in> set (messages (db w)). ID m \<noteq> mid"
  shows "MessageUseCase_BanMessage mid w =
           (Some (errors_New ''message not found''), record_call (Repo_GetByID mid) w)"
    and "MessageUseCase_UnbanMessage mid w =
           (Some (errors_New ''message not found''), record_call (Repo_GetByID mid) w)"
  using GetByID_absent[OF assms]
  by (simp_all add: MessageUseCase_BanMessage_def MessageUseCase_UnbanMessage_def Let_def record_call_def)

lemma MessageUseCase_BanMessage_present:
  assumes "MessageRepository_GetByID mid (db w) = Inr m"
  shows "MessageUseCase_BanMessage mid w =
           (None, \<lparr>db = MessageRepository_Ban mid (db w),
                   calls = calls w @ [Repo_GetByID mid, Repo_Ban mid,
                                      Hub_BroadcastMessage (m\<lparr>IsBanned := True\<rparr>)]\<rparr>)"
    and "MessageUseCase_UnbanMessage mid w =
           (None, \<lparr>db = MessageRepository_Unban mid (db w),
                   calls = calls w @ [Repo_GetByID mid, Repo_Unban mid,
                                      Hub_BroadcastMessage (m\<lparr>IsBanned := False\<rparr>)]\<rparr>)"
  using assms
  by (simp_all add: MessageUseCase_BanMessage_def MessageUseCase_UnbanMessage_def Let_def record_call_def)

lemma find_map_update:
  "find (\<lambda>m. ID m = mid) xs = Some m \<Longrightarrow>
   find (\<lambda>m. ID m = mid) (map (\<lambda>m. if ID m = mid then m\<lparr>IsBanned := b\<rparr> else m) xs) =
     Some (m\<lparr>IsBanned := b\<rparr>)"
  by (induction xs) (auto split: if_splits)

lemma MessageRepository_Ban_GetByID:
  assumes "MessageRepository_GetByID mid d = Inr m"
  shows "MessageRepository_GetByID mid (MessageRepository_Ban mid d) = Inr (m\<lparr>IsBanned := True\<rparr>)"
    and "MessageRepository_GetByID mid (MessageRepository_Unban mid d) = Inr (m\<lparr>IsBanned := False\<rparr>)"
proof -
  from assms have f: "find (\<lambda>m. ID m = mid) (messages d) = Some m"
    by (simp add: MessageRepository_GetByID_def split: option.splits)
  show "MessageRepository_GetByID mid (MessageRepository_Ban mid d) = Inr (m\<lparr>IsBanned := True\<rparr>)"
    using find_map_update[OF f, of True]
    by (simp add: MessageRepository_GetByID_def MessageRepository_Ban_def)
  show "MessageRepository_GetByID mid (MessageRepository_Unban mid d) = Inr (m\<lparr>IsBanned := False\<rparr>)"
    using find_map_update[OF f, of False]
    by (simp add: MessageRepository_GetByID_def MessageRepository_Unban_def)
qed

text \<open>
  Claim C4: \<open>banMessage(id)\<close> and \<open>unbanMessage(id)\<close> return a not-found error when no
  message has that id; otherwise they set the flag in storage and publish the message with
  its new banned state.

  \<open>MessageUseCase\<close> does this; \<open>UseCase\<close> does not: for the absent id 999 it returns
  \<open>nil\<close>, and for message 1 it sets the flag and publishes nothing.
\<close>

theorem C4_UseCase_ban_without_check_or_broadcast:
  "UseCase_BanMessage 999 empty_World = (None, \<lparr>db = empty_DB, calls = [Repo_Ban 999]\<rparr>) \<and>
   UseCase_UnbanMessage 999 empty_World = (None, \<lparr>db = empty_DB, calls = [Repo_Unban 999]\<rparr>) \<and>
   MessageRepository_GetByID 999 empty_DB = Inl (errors_New ''message not found'') \<and>
   fst (UseCase_BanMessage 1 world_hello) = None \<and>
   messages (db (snd (UseCase_BanMessage 1 world_hello))) = [hello_message True] \<and>
   calls (snd (UseCase_BanMessage 1 world_hello)) = calls world_hello @ [Repo_Ban 1] \<and>
   MessageUseCase_BanMessage 999 empty_World =
     (Some (errors_New ''message not found''), \<lparr>db = empty_DB, calls = [Repo_GetByID 999]\<rparr>)"
  by (simp add: UseCase_BanMessage_def UseCase_UnbanMessage_def MessageUseCase_BanMessage_def
      MessageRepository_Ban_def MessageRepository_Unban_def MessageRepository_GetByID_def
      record_call_def Let_def empty_World_def empty_DB_def db_world_hello hello_message_def)


section \<open>The hub\<close>

lemma close_chan_open:
  "\<not> chan_closed ch \<Longrightarrow> close_chan ch = Inr (ch\<lparr>chan_closed := True, chan_recvq := 0\<rparr>)"
  by (simp add: close_chan_def)

lemma try_send_open:
  "\<not> chan_closed ch \<Longrightarrow>
   try_send ch m = Inr (if send_would_block ch then None else Some (deliver m ch))"
  by (auto simp: try_send_def send_would_block_def deliver_def)

lemma try_send_closed: "chan_closed ch \<Longrightarrow> try_send ch m = Inl send_on_closed_channel"
  by (simp add: try_send_def)

lemma deliver_closed: "chan_closed (deliver m ch) = chan_closed ch"
  by (simp add: deliver_def)

lemma closed_no_receiver:
  "chan_recvq ch = 0 \<Longrightarrow> ch\<lparr>chan_closed := True, chan_recvq := 0\<rparr> = ch\<lparr>chan_closed := True\<rparr>"
  by (cases ch) simp

text \<open>For a buffered channel the send blocks exactly when the buffer is full.\<close>

lemma send_would_block_buffered:
  "chan_ok ch \<Longrightarrow> 0 < chan_cap ch \<Longrightarrow>
   send_would_block ch = (chan_cap ch \<le> length (chan_buf ch))"
  by (auto simp: chan_ok_def send_would_block_def)

text \<open>The operations of the hub keep the channel invariant.\<close>

lemma chan_ok_deliver: "chan_ok ch \<Longrightarrow> \<not> send_would_block ch \<Longrightarrow> chan_ok (deliver m ch)"
  by (auto simp: chan_ok_def send_would_block_def deliver_def)

lemma chan_ok_close_chan: "chan_ok ch \<Longrightarrow> close_chan ch = Inr ch' \<Longrightarrow> chan_ok ch'"
  by (auto simp: chan_ok_def close_chan_def split: if_splits)

text \<open>The loop of a broadcast over a hub whose registered clients have open channels never
  panics, and what it does to each client does not depend on the order of the range.\<close>

lemma broadcast_loop_result:
  "hub_ok h \<Longrightarrow> distinct ks \<Longrightarrow> set ks \<subseteq> dom (clients h) \<Longrightarrow>
   \<exists>h'. broadcast_loop m ks h = Inr h' \<and>
     (\<forall>c. send h' c = (if c \<in> set ks then broadcast_chan m (send h c) else send h c)) \<and>
     (\<forall>c. clients h' c = (if c \<in> set ks \<and> send_would_block (send h c) then None else clients h c))"
proof (induction ks arbitrary: h)
  case Nil
  then show ?case by simp
next
  case (Cons k ks)
  from Cons.prems have kdom: "k \<in> dom (clients h)" and knot: "k \<notin> set ks"
    and dks: "distinct ks" and sub: "set ks \<subseteq> dom (clients h)" by auto
  from Cons.prems(1) kdom have op: "\<not> chan_closed (send h k)" by (auto simp: hub_ok_def)
  define h1 where "h1 =
    (if send_would_block (send h k)
     then h\<lparr>send := (send h)(k := (send h k)\<lparr>chan_closed := True, chan_recvq := 0\<rparr>),
            clients := (clients h)(k := None)\<rparr>
     else h\<lparr>send := (send h)(k := deliver m (send h k))\<rparr>)"
  have step: "broadcast_loop m (k # ks) h = broadcast_loop m ks h1"
    using kdom op by (simp add: h1_def try_send_open close_chan_open)
  have ok1: "hub_ok h1"
    using Cons.prems(1) by (auto simp: hub_ok_def h1_def deliver_closed)
  have sub1: "set ks \<subseteq> dom (clients h1)" using sub knot by (auto simp: h1_def)
  have s1: "send h1 c = (if c = k then broadcast_chan m (send h k) else send h c)" for c
    by (simp add: h1_def broadcast_chan_def)
  have c1: "clients h1 c = (if c = k \<and> send_would_block (send h k) then None else clients h c)" for c
    by (simp add: h1_def)
  from Cons.IH[OF ok1 dks sub1] obtain h' where
    r: "broadcast_loop m ks h1 = Inr h'" and
    s: "\<And>c. send h' c = (if c \<in> set ks then broadcast_chan m (send h1 c) else send h1 c)" and
    c: "\<And>c. clients h' c = (if c \<in> set ks \<and> send_would_block (send h1 c) then None else clients h1 c)"
    by blast
  have "\<forall>c. send h' c = (if c \<in> set (k # ks) then broadcast_chan m (send h c) else send h c)"
    using knot by (auto simp: s s1)
  moreover have "\<forall>c. clients h' c =
      (if c \<in> set (k # ks) \<and> send_would_block (send h c) then None else clients h c)"
    using knot by (auto simp: c c1 s1)
  ultimately show ?case using step r by simp
qed

lemma broadcast_loop_Cons:
  assumes "broadcast_loop m (k # ks) h = Inr h'" and "k \<in> dom (clients h)"
  shows "\<not> chan_closed (send h k) \<and>
         (\<exists>h1. broadcast_loop m ks h1 = Inr h' \<and>
           (\<forall>c. c \<noteq> k \<longrightarrow> send h1 c = send h c \<and> clients h1 c = clients h c) \<and>
           (k \<in> dom (clients h1) \<longrightarrow> \<not> chan_closed (send h1 k)))"
proof -
  have op: "\<not> chan_closed (send h k)"
  proof
    assume "chan_closed (send h k)"
    with assms show False by (simp add: try_send_closed)
  qed
  show ?thesis
  proof (cases "send_would_block (send h k)")
    case True
    let ?h1 = "h\<lparr>send := (send h)(k := (send h k)\<lparr>chan_closed := True, chan_recvq := 0\<rparr>),
                   clients := (clients h)(k := None)\<rparr>"
    from True assms op have r: "broadcast_loop m ks ?h1 = Inr h'"
      by (simp add: try_send_open close_chan_open)
    have "(\<forall>c. c \<noteq> k \<longrightarrow> send ?h1 c = send h c \<and> clients ?h1 c = clients h c) \<and>
          (k \<in> dom (clients ?h1) \<longrightarrow> \<not> chan_closed (send ?h1 k))"
      by simp
    with r op show ?thesis by blast
  next
    case False
    let ?h1 = "h\<lparr>send := (send h)(k := deliver m (send h k))\<rparr>"
    from False assms op have r: "broadcast_loop m ks ?h1 = Inr h'"
      by (simp add: try_send_open)
    have "(\<forall>c. c \<noteq> k \<longrightarrow> send ?h1 c = send h c \<and> clients ?h1 c = clients h c) \<and>
          (k \<in> dom (clients ?h1) \<longrightarrow> \<not> chan_closed (send ?h1 k))"
      using op by (simp add: deliver_closed)
    with r op show ?thesis by blast
  qed
qed

lemma broadcast_loop_absent:
  "broadcast_loop m ks h = Inr h' \<Longrightarrow> c \<notin> dom (clients h) \<Longrightarrow>
   c \<notin> dom (clients h') \<and> send h' c = send h c"
proof (induction ks arbitrary: h)
  case Nil
  then show ?case by simp
next
  case (Cons k ks)
  show ?case
  proof (cases "k \<in> dom (clients h)")
    case False
    with Cons show ?thesis by simp
  next
    case True
    with Cons.prems(2) have ne: "c \<noteq> k" by auto
    from broadcast_loop_Cons[OF Cons.prems(1) True] obtain h1 where
      r: "broadcast_loop m ks h1 = Inr h'" and
      same: "\<And>c. c \<noteq> k \<Longrightarrow> send h1 c = send h c \<and> clients h1 c = clients h c"
      by blast
    from same[OF ne] Cons.prems(2) have "c \<notin> dom (clients h1)" by (simp add: domIff)
    from Cons.IH[OF r this] same[OF ne] show ?thesis by simp
  qed
qed

lemma Hub_Run_step_absent:
  "Hub_Run_step r h = Inr h' \<Longrightarrow> r \<noteq> Register c \<Longrightarrow> c \<notin> dom (clients h) \<Longrightarrow>
   c \<notin> dom (clients h') \<and> send h' c = send h c"
proof (cases r)
  case (Register x)
  assume "Hub_Run_step r h = Inr h'" "r \<noteq> Register c" "c \<notin> dom (clients h)"
  with Register show ?thesis by auto
next
  case (Unregister x)
  assume "Hub_Run_step r h = Inr h'" "r \<noteq> Register c" "c \<notin> dom (clients h)"
  with Unregister show ?thesis by (auto simp: close_chan_def split: if_splits)
next
  case (Broadcast m ks)
  assume "Hub_Run_step r h = Inr h'" "r \<noteq> Register c" "c \<notin> dom (clients h)"
  with Broadcast show ?thesis using broadcast_loop_absent[of m ks h h' c] by simp
qed

lemma Hub_Run_absent:
  "Hub_Run rs h = Inr h' \<Longrightarrow> Register c \<notin> set rs \<Longrightarrow> c \<notin> dom (clients h) \<Longrightarrow>
   c \<notin> dom (clients h') \<and> send h' c = send h c"
proof (induction rs arbitrary: h)
  case Nil
  then show ?case by simp
next
  case (Cons r rs)
  from Cons.prems(1) obtain h1 where s1: "Hub_Run_step r h = Inr h1" and s2: "Hub_Run rs h1 = Inr h'"
    by (auto split: sum.splits)
  from Cons.prems(2) have rne: "r \<noteq> Register c" and rsne: "Register c \<notin> set rs" by auto
  from Hub_Run_step_absent[OF s1 rne Cons.prems(3)]
  have a: "c \<notin> dom (clients h1)" and b: "send h1 c = send h c" by auto
  from Cons.IH[OF s2 rsne a] b show ?case by simp
qed

text \<open>\<open>hub_ok\<close> holds of a new hub and is kept by every request, provided the client of a
  \<open>Register\<close> request comes with an open channel; so it is kept along every sequence of
  requests with \<open>registers_open\<close>.\<close>

lemma hub_ok_NewHub: "hub_ok (NewHub heap)"
  by (simp add: hub_ok_def NewHub_def)

lemma broadcast_loop_hub_ok:
  "broadcast_loop m ks h = Inr h' \<Longrightarrow> hub_ok h \<Longrightarrow> hub_ok h'"
proof (induction ks arbitrary: h)
  case Nil
  then show ?case by simp
next
  case (Cons k ks)
  show ?case
  proof (cases "k \<in> dom (clients h)")
    case False
    with Cons show ?thesis by simp
  next
    case True
    from broadcast_loop_Cons[OF Cons.prems(1) True] obtain h1 where
      r: "broadcast_loop m ks h1 = Inr h'" and
      same: "\<And>c. c \<noteq> k \<Longrightarrow> send h1 c = send h c \<and> clients h1 c = clients h c" and
      kk: "k \<in> dom (clients h1) \<longrightarrow> \<not> chan_closed (send h1 k)"
      by blast
    have "hub_ok h1"
      unfolding hub_ok_def
    proof
      fix c assume cd: "c \<in> dom (clients h1)"
      show "\<not> chan_closed (send h1 c)"
      proof (cases "c = k")
        case True
        with kk cd show ?thesis by simp
      next
        case False
        from same[OF False] cd have "c \<in> dom (clients h)" by (simp add: domIff)
        with Cons.prems(2) same[OF False] show ?thesis by (simp add: hub_ok_def)
      qed
    qed
    from Cons.IH[OF r this] show ?thesis .
  qed
qed

lemma Hub_Run_step_hub_ok:
  assumes "Hub_Run_step r h = Inr h'" and "hub_ok h"
    and "\<And>c. r = Register c \<Longrightarrow> \<not> chan_closed (send h c)"
  shows "hub_ok h'"
proof (cases r)
  case (Register c)
  with assms(3) have "\<not> chan_closed (send h c)" by simp
  with Register assms(1,2) show ?thesis by (auto simp: hub_ok_def split: if_splits)
next
  case (Unregister c)
  with assms(1,2) show ?thesis by (auto simp: hub_ok_def close_chan_def split: if_splits)
next
  case (Broadcast m ks)
  with assms(1,2) show ?thesis using broadcast_loop_hub_ok[of m ks h h'] by simp
qed

lemma Hub_Run_hub_ok:
  "Hub_Run rs h = Inr h' \<Longrightarrow> hub_ok h \<Longrightarrow> registers_open rs h \<Longrightarrow> hub_ok h'"
proof (induction rs arbitrary: h)
  case Nil
  then show ?case by simp
next
  case (Cons r rs)
  from Cons.prems(1) obtain h1 where s1: "Hub_Run_step r h = Inr h1" and s2: "Hub_Run rs h1 = Inr h'"
    by (auto split: sum.splits)
  from Cons.prems(3) s1 have ro: "registers_open rs h1"
    and reg: "\<And>c. r = Register c \<Longrightarrow> \<not> chan_closed (send h c)"
    by auto
  from Hub_Run_step_hub_ok[OF s1 Cons.prems(2) reg] have "hub_ok h1" .
  from Cons.IH[OF s2 this ro] show ?case .
qed

text \<open>Without that proviso the invariant is lost: a client whose channel has been closed
  must not register again, for the next broadcast would send on the closed channel.\<close>

lemma reregistered_client_panics:
  assumes "chan_closed (send h c)"
  shows "Hub_Run [Register c, Broadcast message [c]] h = Inl send_on_closed_channel"
  using assms by (simp add: try_send_def)

text \<open>
  Claim C5: when an event is published, a registered session whose outbound queue is full
  is removed from the live set and receives no event from any later publish (until it is
  registered again), while every other registered session receives the event and stays
  registered.

  Stated for every capacity and for any order in which the range yields the clients, on a
  hub whose registered clients have open channels (\<open>hub_ok\<close>: the states \<open>Run\<close> reaches as
  long as no client registers with a closed channel).  The queue of a client is full when the
  non-blocking send would block (\<open>send_would_block\<close>); for a buffered channel that is
  exactly a buffer filled to its capacity.  The broadcast does not panic.  A client whose
  queue is full is out of the map, its channel closed and otherwise as it was, and stays so
  through any further requests that do not register it again.  Every other client keeps
  its entry and gets the message: handed to its waiting receiver if there is one, at the end
  of its buffer otherwise.
\<close>

theorem C5_full_queue_session_dropped:
  assumes "hub_ok h" and "range_order ks h"
  shows "\<exists>h'. Hub_Run_step (Broadcast message ks) h = Inr h' \<and>
     (\<forall>c \<in> dom (clients h).
        (chan_ok (send h c) \<and> 0 < chan_cap (send h c) \<longrightarrow>
           send_would_block (send h c) = (chan_cap (send h c) \<le> length (chan_buf (send h c)))) \<and>
        (if send_would_block (send h c)
         then c \<notin> dom (clients h') \<and> send h' c = (send h c)\<lparr>chan_closed := True\<rparr> \<and>
              (\<forall>rs h''. Register c \<notin> set rs \<and> Hub_Run rs h' = Inr h'' \<longrightarrow>
                  c \<notin> dom (clients h'') \<and> send h'' c = send h' c)
         else clients h' c = clients h c \<and>
              send h' c =
                (if 0 < chan_recvq (send h c)
                 then (send h c)\<lparr>chan_recvq := chan_recvq (send h c) - 1,
                                 chan_received := chan_received (send h c) @ [message]\<rparr>
                 else (send h c)\<lparr>chan_buf := chan_buf (send h c) @ [message]\<rparr>)))"
proof -
  from assms(2) have d: "distinct ks" and s: "set ks = dom (clients h)"
    by (simp_all add: range_order_def)
  from s have sub: "set ks \<subseteq> dom (clients h)" by simp
  from broadcast_loop_result[OF assms(1) d sub, of message] obtain h' where
    r: "broadcast_loop message ks h = Inr h'" and
    sn: "\<And>c. send h' c = (if c \<in> set ks then broadcast_chan message (send h c) else send h c)" and
    cl: "\<And>c. clients h' c = (if c \<in> set ks \<and> send_would_block (send h c) then None else clients h c)"
    by blast
  have main: "if send_would_block (send h c)
         then c \<notin> dom (clients h') \<and> send h' c = (send h c)\<lparr>chan_closed := True\<rparr> \<and>
              (\<forall>rs h''. Register c \<notin> set rs \<and> Hub_Run rs h' = Inr h'' \<longrightarrow>
                  c \<notin> dom (clients h'') \<and> send h'' c = send h' c)
         else clients h' c = clients h c \<and>
              send h' c =
                (if 0 < chan_recvq (send h c)
                 then (send h c)\<lparr>chan_recvq := chan_recvq (send h c) - 1,
                                 chan_received := chan_received (send h c) @ [message]\<rparr>
                 else (send h c)\<lparr>chan_buf := chan_buf (send h c) @ [message]\<rparr>)"
    if cdom: "c \<in> dom (clients h)" for c
  proof (cases "send_would_block (send h c)")
    case True
    then have nr: "chan_recvq (send h c) = 0" by (simp add: send_would_block_def)
    from cdom s have cks: "c \<in> set ks" by simp
    from True cks have gone: "c \<notin> dom (clients h')" by (simp add: cl domIff)
    from True cks have "send h' c = (send h c)\<lparr>chan_closed := True, chan_recvq := 0\<rparr>"
      by (simp add: sn broadcast_chan_def)
    then have ch: "send h' c = (send h c)\<lparr>chan_closed := True\<rparr>"
      by (simp only: closed_no_receiver[OF nr])
    have later: "c \<notin> dom (clients h'') \<and> send h'' c = send h' c"
      if "Register c \<notin> set rs" and "Hub_Run rs h' = Inr h''" for rs h''
      using Hub_Run_absent[OF that(2) that(1) gone] by simp
    from later have "\<forall>rs h''. Register c \<notin> set rs \<and> Hub_Run rs h' = Inr h'' \<longrightarrow>
                 c \<notin> dom (clients h'') \<and> send h'' c = send h' c"
      by blast
    with gone ch have conj: "c \<notin> dom (clients h') \<and> send h' c = (send h c)\<lparr>chan_closed := True\<rparr> \<and>
              (\<forall>rs h''. Register c \<notin> set rs \<and> Hub_Run rs h' = Inr h'' \<longrightarrow>
                  c \<notin> dom (clients h'') \<and> send h'' c = send h' c)"
      by (intro conjI)
    show ?thesis unfolding if_P[OF True] by (rule conj)
  next
    case False
    from cdom s have cks: "c \<in> set ks" by simp
    from False cks have "clients h' c = clients h c" and "send h' c = deliver message (send h c)"
      by (simp_all add: sn cl broadcast_chan_def)
    then have conj: "clients h' c = clients h c \<and>
              send h' c =
                (if 0 < chan_recvq (send h c)
                 then (send h c)\<lparr>chan_recvq := chan_recvq (send h c) - 1,
                                 chan_received := chan_received (send h c) @ [message]\<rparr>
                 else (send h c)\<lparr>chan_buf := chan_buf (send h c) @ [message]\<rparr>)"
      by (simp only: deliver_def simp_thms)
    show ?thesis unfolding if_not_P[OF False] by (rule conj)
  qed
  have all: "\<forall>c \<in> dom (clients h).
        (chan_ok (send h c) \<and> 0 < chan_cap (send h c) \<longrightarrow>
           send_would_block (send h c) = (chan_cap (send h c) \<le> length (chan_buf (send h c)))) \<and>
        (if send_would_block (send h c)
         then c \<notin> dom (clients h') \<and> send h' c = (send h c)\<lparr>chan_closed := True\<rparr> \<and>
              (\<forall>rs h''. Register c \<notin> set rs \<and> Hub_Run rs h' = Inr h'' \<longrightarrow>
                  c \<notin> dom (clients h'') \<and> send h'' c = send h' c)
         else clients h' c = clients h c \<and>
              send h' c =
                (if 0 < chan_recvq (send h c)
                 then (send h c)\<lparr>chan_recvq := chan_recvq (send h c) - 1,
                                 chan_received := chan_received (send h c) @ [message]\<rparr>
                 else (send h c)\<lparr>chan_buf := chan_buf (send h c) @ [message]\<rparr>))"
  proof (intro ballI conjI impI)
    fix c
    assume "chan_ok (send h c) \<and> 0 < chan_cap (send h c)"
    then show "send_would_block (send h c) = (chan_cap (send h c) \<le> length (chan_buf (send h c)))"
      using send_would_block_buffered[of "send h c"] by blast
  next
    fix c
    assume "c \<in> dom (clients h)"
    then show "if send_would_block (send h c)
         then c \<notin> dom (clients h') \<and> send h' c = (send h c)\<lparr>chan_closed := True\<rparr> \<and>
              (\<forall>rs h''. Register c \<notin> set rs \<and> Hub_Run rs h' = Inr h'' \<longrightarrow>
                  c \<notin> dom (clients h'') \<and> send h'' c = send h' c)
         else clients h' c = clients h c \<and>
              send h' c =
                (if 0 < chan_recvq (send h c)
                 then (send h c)\<lparr>chan_recvq := chan_recvq (send h c) - 1,
                                 chan_received := chan_received (send h c) @ [message]\<rparr>
                 else (send h c)\<lparr>chan_buf := chan_buf (send h c) @ [message]\<rparr>)"
      by (rule main)
  qed
  from r have r': "Hub_Run_step (Broadcast message ks) h = Inr h'" by simp
  show ?thesis
  proof (rule exI[of _ h'], rule conjI)
    show "Hub_Run_step (Broadcast message ks) h = Inr h'" by (rule r')
    show "\<forall>c \<in> dom (clients h).
        (chan_ok (send h c) \<and> 0 < chan_cap (send h c) \<longrightarrow>
           send_would_block (send h c) = (chan_cap (send h c) \<le> length (chan_buf (send h c)))) \<and>
        (if send_would_block (send h c)
         then c \<notin> dom (clients h') \<and> send h' c = (send h c)\<lparr>chan_closed := True\<rparr> \<and>
              (\<forall>rs h''. Register c \<notin> set rs \<and> Hub_Run rs h' = Inr h'' \<longrightarrow>
                  c \<notin> dom (clients h'') \<and> send h'' c = send h' c)
         else clients h' c = clients h c \<and>
              send h' c =
                (if 0 < chan_recvq (send h c)
                 then (send h c)\<lparr>chan_recvq := chan_recvq (send h c) - 1,
                                 chan_received := chan_received (send h c) @ [message]\<rparr>
                 else (send h c)\<lparr>chan_buf := chan_buf (send h c) @ [message]\<rparr>))"
      by (rule all)
  qed
qed

theorem C5_full_queue_session_dropped_witness:
  "hub_ok hub_example \<and> range_order [2, 1] hub_example \<and>
   chan_ok (send hub_example 1) \<and> 0 < chan_cap (send hub_example 1) \<and>
   chan_cap (send hub_example 1) \<le> length (chan_buf (send hub_example 1)) \<and>
   \<not> send_would_block (send hub_example 2) \<and>
   (\<exists>h'. Hub_Run_step (Broadcast ''event'' [2, 1]) hub_example = Inr h' \<and>
      1 \<notin> dom (clients h') \<and> chan_buf (send h' 1) = [''old''] \<and> chan_closed (send h' 1) \<and>
      clients h' 2 = Some True \<and> chan_buf (send h' 2) = [''event''] \<and>
      \<not> chan_closed (send h' 2)) \<and>
   hub_ok hub_unbuffered \<and> range_order [1, 2] hub_unbuffered \<and>
   \<not> send_would_block (send hub_unbuffered 1) \<and> send_would_block (send hub_unbuffered 2) \<and>
   (\<exists>h'. Hub_Run_step (Broadcast ''event'' [1, 2]) hub_unbuffered = Inr h' \<and>
      clients h' 1 = Some True \<and> chan_received (send h' 1) = [''event''] \<and>
      \<not> chan_closed (send h' 1) \<and>
      2 \<notin> dom (clients h') \<and> chan_received (send h' 2) = [] \<and> chan_closed (send h' 2))"
proof -
  have ok: "hub_ok hub_example"
    by (simp add: hub_ok_def hub_example_def)
  have ro: "range_order [2, 1] hub_example"
    by (auto simp: range_order_def hub_example_def)
  have dom: "1 \<in> dom (clients hub_example)" "2 \<in> dom (clients hub_example)"
    by (simp_all add: hub_example_def)
  have inv1: "chan_ok (send hub_example 1) \<and> 0 < chan_cap (send hub_example 1)"
    and full1: "chan_cap (send hub_example 1) \<le> length (chan_buf (send hub_example 1))"
    by (simp_all add: chan_ok_def hub_example_def)
  have room2: "\<not> send_would_block (send hub_example 2)"
    by (simp add: send_would_block_def hub_example_def)
  from C5_full_queue_session_dropped[OF ok ro, of "''event''"] obtain h' where
    p: "Hub_Run_step (Broadcast ''event'' [2, 1]) hub_example = Inr h' \<and>
       (\<forall>c \<in> dom (clients hub_example).
        (chan_ok (send hub_example c) \<and> 0 < chan_cap (send hub_example c) \<longrightarrow>
           send_would_block (send hub_example c) =
             (chan_cap (send hub_example c) \<le> length (chan_buf (send hub_example c)))) \<and>
        (if send_would_block (send hub_example c)
         then c \<notin> dom (clients h') \<and> send h' c = (send hub_example c)\<lparr>chan_closed := True\<rparr> \<and>
              (\<forall>rs h''. Register c \<notin> set rs \<and> Hub_Run rs h' = Inr h'' \<longrightarrow>
                  c \<notin> dom (clients h'') \<and> send h'' c = send h' c)
         else clients h' c = clients hub_example c \<and>
              send h' c =
                (if 0 < chan_recvq (send hub_example c)
                 then (send hub_example c)\<lparr>chan_recvq := chan_recvq (send hub_example c) - 1,
                        chan_received := chan_received (send hub_example c) @ [''event'']\<rparr>
                 else (send hub_example c)\<lparr>chan_buf := chan_buf (send hub_example c) @ [''event'']\<rparr>)))"
    ..
  note r = p[THEN conjunct1] and a = p[THEN conjunct2]
  note p1 = bspec[OF a dom(1)] and p2 = bspec[OF a dom(2)]
  from p1[THEN conjunct1, THEN mp, OF inv1] full1
  have blk1: "send_would_block (send hub_example 1)" by simp
  note q1 = p1[THEN conjunct2, unfolded if_P[OF blk1]]
  note q2 = p2[THEN conjunct2, unfolded if_not_P[OF room2]]
  from q1 have g1: "1 \<notin> dom (clients h')" by (rule conjunct1)
  from q1[THEN conjunct2, THEN conjunct1]
  have b1: "chan_buf (send h' 1) = [''old'']" "chan_closed (send h' 1)"
    by (simp_all add: hub_example_def)
  from q2[THEN conjunct1] have b2: "clients h' 2 = Some True"
    by (simp add: hub_example_def)
  from q2[THEN conjunct2] have b3: "chan_buf (send h' 2) = [''event'']" "\<not> chan_closed (send h' 2)"
    by (simp_all add: hub_example_def)
  have first: "\<exists>h'. Hub_Run_step (Broadcast ''event'' [2, 1]) hub_example = Inr h' \<and>
      1 \<notin> dom (clients h') \<and> chan_buf (send h' 1) = [''old''] \<and> chan_closed (send h' 1) \<and>
      clients h' 2 = Some True \<and> chan_buf (send h' 2) = [''event''] \<and>
      \<not> chan_closed (send h' 2)"
    by (rule exI[of _ h']) (intro conjI r g1 b1 b2 b3)
  have oku: "hub_ok hub_unbuffered"
    by (simp add: hub_ok_def hub_unbuffered_def)
  have rou: "range_order [1, 2] hub_unbuffered"
    by (auto simp: range_order_def hub_unbuffered_def)
  have domu: "1 \<in> dom (clients hub_unbuffered)" "2 \<in> dom (clients hub_unbuffered)"
    by (simp_all add: hub_unbuffered_def)
  have wait1: "\<not> send_would_block (send hub_unbuffered 1)"
    and busy2: "send_would_block (send hub_unbuffered 2)"
    by (simp_all add: send_would_block_def hub_unbuffered_def)
  from C5_full_queue_session_dropped[OF oku rou, of "''event''"] obtain hu where
    pu: "Hub_Run_step (Broadcast ''event'' [1, 2]) hub_unbuffered = Inr hu \<and>
       (\<forall>c \<in> dom (clients hub_unbuffered).
        (chan_ok (send hub_unbuffered c) \<and> 0 < chan_cap (send hub_unbuffered c) \<longrightarrow>
           send_would_block (send hub_unbuffered c) =
             (chan_cap (send hub_unbuffered c) \<le> length (chan_buf (send hub_unbuffered c)))) \<and>
        (if send_would_block (send hub_unbuffered c)
         then c \<notin> dom (clients hu) \<and> send hu c = (send hub_unbuffered c)\<lparr>chan_closed := True\<rparr> \<and>
              (\<forall>rs h''. Register c \<notin> set rs \<and> Hub_Run rs hu = Inr h'' \<longrightarrow>
                  c \<notin> dom (clients h'') \<and> send h'' c = send hu c)
         else clients hu c = clients hub_unbuffered c \<and>
              send hu c =
                (if 0 < chan_recvq (send hub_unbuffered c)
                 then (send hub_unbuffered c)\<lparr>chan_recvq := chan_recvq (send hub_unbuffered c) - 1,
                        chan_received := chan_received (send hub_unbuffered c) @ [''event'']\<rparr>
                 else (send hub_unbuffered c)\<lparr>chan_buf := chan_buf (send hub_unbuffered c) @ [''event'']\<rparr>)))"
    ..
  note ru = pu[THEN conjunct1] and au = pu[THEN conjunct2]
  note pu1 = bspec[OF au domu(1)] and pu2 = bspec[OF au domu(2)]
  note qu1 = pu1[THEN conjunct2, unfolded if_not_P[OF wait1]]
  note qu2 = pu2[THEN conjunct2, unfolded if_P[OF busy2]]
  from qu1[THEN conjunct1] have v1: "clients hu 1 = Some True"
    by (simp add: hub_unbuffered_def)
  from qu1[THEN conjunct2]
  have v2: "chan_received (send hu 1) = [''event'']" "\<not> chan_closed (send hu 1)"
    by (simp_all add: hub_unbuffered_def)
  from qu2 have v3: "2 \<notin> dom (clients hu)" by (rule conjunct1)
  from qu2[THEN conjunct2, THEN conjunct1]
  have v4: "chan_received (send hu 2) = []" "chan_closed (send hu 2)"
    by (simp_all add: hub_unbuffered_def)
  have second: "\<exists>h'. Hub_Run_step (Broadcast ''event'' [1, 2]) hub_unbuffered = Inr h' \<and>
      clients h' 1 = Some True \<and> chan_received (send h' 1) = [''event''] \<and>
      \<not> chan_closed (send h' 1) \<and>
      2 \<notin> dom (clients h') \<and> chan_received (send h' 2) = [] \<and> chan_closed (send h' 2)"
    by (rule exI[of _ hu]) (intro conjI ru v1 v2 v3 v4)
  from inv1 have i1: "chan_ok (send hub_example 1)" and i2: "0 < chan_cap (send hub_example 1)"
    by simp_all
  show ?thesis
    by (intro conjI ok ro i1 i2 full1 room2 first oku rou wait1 busy2 second)
qed

text \<open>
  Claim C9: \<open>unregister(session)\<close> is idempotent: unregistering a session that is not in
  the live set leaves the state unchanged, and unregistering twice in a row is the same as
  unregistering once.
\<close>

theorem C9_unregister_idempotent:
  "(c \<notin> dom (clients h) \<longrightarrow> Hub_Run_step (Unregister c) h = Inr h) \<and>
   Hub_Run [Unregister c, Unregister c] h = Hub_Run [Unregister c] h"
  by (auto simp: close_chan_def split: sum.splits)

theorem C9_unregister_idempotent_witness:
  "3 \<notin> dom (clients hub_example) \<and>
   Hub_Run_step (Unregister 3) hub_example = Inr hub_example \<and>
   Hub_Run [Unregister 1, Unregister 1] hub_example = Hub_Run [Unregister 1] hub_example \<and>
   (\<exists>h'. Hub_Run [Unregister 1] hub_example = Inr h' \<and> 1 \<notin> dom (clients h') \<and>
          chan_closed (send h' 1))"
proof -
  have a: "3 \<notin> dom (clients hub_example)" by (simp add: hub_example_def)
  from C9_unregister_idempotent[of 3 hub_example] a
  have b: "Hub_Run_step (Unregister 3) hub_example = Inr hub_example" by blast
  from C9_unregister_idempotent[of 1 hub_example]
  have c: "Hub_Run [Unregister 1, Unregister 1] hub_example = Hub_Run [Unregister 1] hub_example"
    by blast
  have d: "\<exists>h'. Hub_Run [Unregister 1] hub_example = Inr h' \<and> 1 \<notin> dom (clients h') \<and>
          chan_closed (send h' 1)"
    by (simp add: hub_example_def close_chan_def)
  from a b c d show ?thesis by blast
qed

end
